theory Spec2Isabelle
  imports Complex_Main
begin

section \<open>Values, dictionaries and exceptions\<close>

text \<open>
  The validator (\<^verbatim>\<open>src/commune/vali/vali.py\<close>, class \<^verbatim>\<open>Vali\<close>) keeps every module record as
  a JSON dictionary. A dictionary is a map from keys to Python values. Integers and floats are
  both \<open>VNum\<close> over the reals: the arithmetic of the scores is the exact one, the rounding of
  floating point is not modelled.
\<close>

datatype pyval = VNone | VBool bool | VNum real | VStr string

type_synonym pydict = "string \<rightharpoonup> pyval"

datatype error =
  KeyError | TypeError | AssertionError | ConnectionError | TimeoutError | OtherError string

text \<open>
  An arithmetic operand: \<^verbatim>\<open>x * alpha\<close> and \<^verbatim>\<open>t - x\<close> with a float on the other side. A
  number is itself, a bool counts as 0 or 1, \<^verbatim>\<open>None\<close> and a string raise \<^verbatim>\<open>TypeError\<close>.
\<close>

fun num_of :: "pyval \<Rightarrow> error + real" where
  "num_of (VNum r) = Inr r"
| "num_of (VBool b) = Inr (if b then 1 else 0)"
| "num_of VNone = Inl TypeError"
| "num_of (VStr s) = Inl TypeError"

text \<open>\<^verbatim>\<open>d.get(k, default)\<close> and \<^verbatim>\<open>d[k]\<close>.\<close>

definition get_or :: "pydict \<Rightarrow> string \<Rightarrow> pyval \<Rightarrow> pyval" where
  "get_or d k dflt = (case d k of None \<Rightarrow> dflt | Some x \<Rightarrow> x)"

definition getitem :: "pydict \<Rightarrow> string \<Rightarrow> error + pyval" where
  "getitem d k = (case d k of None \<Rightarrow> Inl KeyError | Some x \<Rightarrow> Inr x)"

section \<open>The validator's state\<close>

record config =
  max_age :: real
  alpha :: real
  batch_size :: int
  print_interval :: real
  vote_interval :: real
  min_num_weights :: int
  network :: string

text \<open>
  The dictionary \<^verbatim>\<open>votes\<close> of lines 334 and 353 (\<^verbatim>\<open>keys\<close>, \<^verbatim>\<open>weights\<close>, \<^verbatim>\<open>uids\<close>,
  \<^verbatim>\<open>timestamp\<close>) is the record \<open>voteset\<close>; \<open>saved_votes\<close> is the file at \<^verbatim>\<open>votes_path\<close>.
  \<open>storage\<close> is the persistent store under \<^verbatim>\<open>storage_path()\<close>: \<^verbatim>\<open>put_json\<close> writes the record
  to \<^verbatim>\<open>f'{storage_path()}/{info["name"]}'\<close> and \<^verbatim>\<open>load_module_info\<close> reads
  \<^verbatim>\<open>storage_path() + f'/{k}'\<close>. The model keys the store by the value of the name that is
  formatted into the path.
\<close>

record voteset =
  vote_keys :: "string list"
  weights :: "real list"
  uids :: "int list"
  timestamp :: real

record vali =
  cfg :: config
  namespace :: "string \<rightharpoonup> string"
  address2name :: "string \<rightharpoonup> string"
  requests :: int
  storage :: "pyval \<rightharpoonup> pydict"
  last_vote_time :: real
  saved_votes :: "voteset option"

definition load_module_info :: "vali \<Rightarrow> string \<Rightarrow> pydict" where
  "load_module_info v k = (case storage v (VStr k) of None \<Rightarrow> Map.empty | Some d \<Rightarrow> d)"

text \<open>\<^verbatim>\<open>get_module_info\<close>, lines 241-259: the name and the address of the argument
  (a name or an address), then the cached record with \<^verbatim>\<open>address\<close>, \<^verbatim>\<open>name\<close> and
  \<^verbatim>\<open>schema\<close> set.\<close>

definition resolve :: "vali \<Rightarrow> string \<Rightarrow> string \<times> pyval" where
  "resolve v m =
     (case namespace v m of
        Some a \<Rightarrow> (m, VStr a)
      | None \<Rightarrow>
          (case address2name v m of
             Some n \<Rightarrow> (n, VStr m)
           | None \<Rightarrow> (m, VNone)))"

definition get_module_info :: "vali \<Rightarrow> string \<Rightarrow> pydict" where
  "get_module_info v m =
     (let (module_name, module_address) = resolve v m;
          info = load_module_info v module_name;
          info = info(''address'' \<mapsto> module_address);
          info = info(''name'' \<mapsto> VStr module_name)
      in info(''schema'' \<mapsto> get_or info ''schema'' VNone))"

section \<open>Scoring\<close>

text \<open>
  What \<^verbatim>\<open>score_module\<close> hands back: a dictionary or any other value. The default
  implementation (line 224) returns \<^verbatim>\<open>{'success': True, 'w': 1}\<close>; subclasses override it.
\<close>

datatype response = RVal pyval | RDict pydict

definition score_module_default :: response where
  "score_module_default = RDict [''success'' \<mapsto> VBool True, ''w'' \<mapsto> VNum 1]"

text \<open>\<^verbatim>\<open>check_response\<close>, lines 226-238.\<close>

fun check_response :: "response \<Rightarrow> error + pydict" where
  "check_response (RVal (VNum r)) = Inr [''w'' \<mapsto> VNum r]"
| "check_response (RVal (VBool b)) = Inr [''w'' \<mapsto> VNum (if b then 1 else 0)]"
| "check_response (RVal VNone) = Inl AssertionError"
| "check_response (RVal (VStr s)) = Inl AssertionError"
| "check_response (RDict d) = (case d ''w'' of None \<Rightarrow> Inl AssertionError | Some x \<Rightarrow> Inr d)"

section \<open>Evaluating one module\<close>

text \<open>
  Everything \<^verbatim>\<open>eval_module\<close> gets from outside the validator during one call: whether
  \<^verbatim>\<open>c.connect\<close> raises, what \<^verbatim>\<open>module.info\<close> and \<^verbatim>\<open>score_module\<close> return or raise, and the
  four readings of \<^verbatim>\<open>c.time()\<close> (lines 275, 280, 287, 298).
\<close>

record eval_env =
  connect_out :: "error option"
  info_out :: "error + pydict"
  score_out :: "error + response"
  now_check :: real
  now_hit :: real
  now_stamp :: real
  now_latency :: real

text \<open>The calls made on the module client, in order.\<close>

datatype call = Connect pyval | Info | Score

text \<open>Line 275: \<^verbatim>\<open>c.time() - info.get('timestamp', 0)\<close>.\<close>

definition seconds_since_called :: "eval_env \<Rightarrow> pydict \<Rightarrow> error + real" where
  "seconds_since_called env info =
     (case num_of (get_or info ''timestamp'' (VNum 0)) of
        Inl e \<Rightarrow> Inl e
      | Inr t \<Rightarrow> Inr (now_check env - t))"

text \<open>Lines 277-281, the result of the freshness short-circuit. The message is shortened:
  the source formats the two numbers into it.\<close>

definition cached_result :: "eval_env \<Rightarrow> pydict \<Rightarrow> pydict" where
  "cached_result env info =
     [''w'' \<mapsto> get_or info ''w'' (VNum 0),
      ''module'' \<mapsto> get_or info ''name'' VNone,
      ''address'' \<mapsto> get_or info ''address'' VNone,
      ''timestamp'' \<mapsto> VNum (now_hit env),
      ''msg'' \<mapsto> VStr ''Module is not stale'']"

text \<open>Lines 289-296: the \<^verbatim>\<open>try\<close> block. It returns the record and the response that the
  blend reads. When the scoring function or \<^verbatim>\<open>check_response\<close> raises, the record is left as
  it was and the response is \<^verbatim>\<open>{'w': 0, 'msg': ...}\<close> (the message is shortened).\<close>

definition failed_response :: pydict where
  "failed_response = [''w'' \<mapsto> VNum 0, ''msg'' \<mapsto> VStr ''failed'']"

definition score_step :: "error + response \<Rightarrow> pydict \<Rightarrow> pydict \<times> pydict" where
  "score_step out info =
     (case out of
        Inl e \<Rightarrow> (info, failed_response)
      | Inr r \<Rightarrow>
          (case check_response r of
             Inl e \<Rightarrow> (info, failed_response)
           | Inr resp \<Rightarrow> (info ++ resp, resp)))"

text \<open>Line 299: \<^verbatim>\<open>response['w'] * alpha + info['w'] * (1 - alpha)\<close>, evaluated left to right.\<close>

definition blend :: "real \<Rightarrow> pydict \<Rightarrow> pydict \<Rightarrow> error + real" where
  "blend a resp info =
     (case getitem resp ''w'' of Inl e \<Rightarrow> Inl e | Inr rw \<Rightarrow>
     (case num_of rw of Inl e \<Rightarrow> Inl e | Inr r \<Rightarrow>
     (case getitem info ''w'' of Inl e \<Rightarrow> Inl e | Inr iw \<Rightarrow>
     (case num_of iw of Inl e \<Rightarrow> Inl e | Inr i \<Rightarrow>
        Inr (r * a + i * (1 - a))))))"

text \<open>Lines 298-302: latency, blend, \<^verbatim>\<open>put_json\<close>, result.\<close>

definition finish :: "eval_env \<Rightarrow> vali \<Rightarrow> pydict \<Rightarrow> pydict \<Rightarrow> vali \<times> (error + pydict)" where
  "finish env v info resp =
     (case getitem info ''timestamp'' of Inl e \<Rightarrow> (v, Inl e) | Inr ts \<Rightarrow>
     (case num_of ts of Inl e \<Rightarrow> (v, Inl e) | Inr t \<Rightarrow>
     (let info = info(''latency'' \<mapsto> VNum (now_latency env - t)) in
     (case blend (alpha (cfg v)) resp info of Inl e \<Rightarrow> (v, Inl e) | Inr w \<Rightarrow>
     (let info = info(''w'' \<mapsto> VNum w) in
     (case getitem info ''name'' of Inl e \<Rightarrow> (v, Inl e) | Inr name \<Rightarrow>
        (v\<lparr>storage := (storage v)(name \<mapsto> info)\<rparr>,
         Inr [''w'' \<mapsto> VNum w,
              ''module'' \<mapsto> name,
              ''address'' \<mapsto> get_or info ''address'' VNone,
              ''latency'' \<mapsto> VNum (now_latency env - t)])))))))"

text \<open>
  \<^verbatim>\<open>eval_module\<close>, lines 262-302. The result is the validator after the call, the calls made
  on the module client, and what the caller gets: \<open>Inl\<close> the exception raised, \<open>Inr\<close> the
  dictionary returned. The counter and the store keep what was written before an exception.
\<close>

definition eval_module :: "eval_env \<Rightarrow> vali \<Rightarrow> string \<Rightarrow> vali \<times> call list \<times> (error + pydict)" where
  "eval_module env v m =
     (let info = get_module_info v m;
          address = get_or info ''address'' VNone
      in case connect_out env of
           Some e \<Rightarrow> (v, [Connect address], Inl e)
         | None \<Rightarrow>
             let v = v\<lparr>requests := requests v + 1\<rparr> in
             (case seconds_since_called env info of
                Inl e \<Rightarrow> (v, [Connect address], Inl e)
              | Inr s \<Rightarrow>
                  if s < max_age (cfg v) then
                    (v, [Connect address], Inr (cached_result env info))
                  else
                    (case info_out env of
                       Inl e \<Rightarrow> (v, [Connect address, Info], Inl e)
                     | Inr module_info \<Rightarrow>
                         if info ''address'' = None \<or> info ''name'' = None then
                           (v, [Connect address, Info], Inl AssertionError)
                         else
                           let info = info ++ module_info;
                               info = info(''timestamp'' \<mapsto> VNum (now_stamp env));
                               (info, resp) = score_step (score_out env) info;
                               (v, res) = finish env v info resp
                           in (v, [Connect address, Info, Score], res))))"

text \<open>The score a call returned, and the score the store holds for a name.\<close>

definition score_of :: "error + pydict \<Rightarrow> pyval option" where
  "score_of res = (case res of Inl e \<Rightarrow> None | Inr r \<Rightarrow> r ''w'')"

definition stored_score :: "vali \<Rightarrow> string \<Rightarrow> pyval option" where
  "stored_score v name = load_module_info v name ''w''"

text \<open>The scoring step raises: the scoring function does, or \<^verbatim>\<open>check_response\<close> on what it
  returned. The metadata that \<^verbatim>\<open>module.info\<close> returns (name, identity, schema) carries no
  score. A step of the evaluation fails: \<^verbatim>\<open>c.connect\<close>, \<^verbatim>\<open>module.info\<close> or the scoring step
  raises.\<close>

definition scoring_raises :: "error + response \<Rightarrow> bool" where
  "scoring_raises out = (case out of Inl e \<Rightarrow> True | Inr r \<Rightarrow> isl (check_response r))"

definition metadata_without_score :: "eval_env \<Rightarrow> bool" where
  "metadata_without_score env = (case info_out env of Inl e \<Rightarrow> True | Inr mi \<Rightarrow> mi ''w'' = None)"

definition step_fails :: "eval_env \<Rightarrow> bool" where
  "step_fails env = (isl (info_out env) \<or> scoring_raises (score_out env) \<or> connect_out env \<noteq> None)"

section \<open>The arithmetic of Python's floats\<close>

text \<open>
  \<open>eval_module\<close> above computes with exact reals; what it says of the paths, the calls,
  the exceptions, the counter and the store does not depend on rounding. The value of the
  blend of line 299 does: Python computes it in binary64, rounding after every operation.

  \<open>binary64\<close> rounds a real to the nearest binary64 number, ties to the even significand.
  A positive number is scaled by powers of two until it lies between \<open>2^52\<close> and \<open>2^53\<close>,
  rounded to the nearest integer (\<open>round_even\<close>) and scaled back: \<open>dn\<close> doubles, at most 1074
  times, which is where the subnormal numbers start, and \<open>up\<close> halves, at most 971 times.
  Magnitudes from \<open>2^1024\<close> on, which Python turns into \<^verbatim>\<open>inf\<close>, are outside the model.
\<close>

definition round_even :: "real \<Rightarrow> int" where
  "round_even y =
     (let f = \<lfloor>y\<rfloor>; d = y - of_int f
      in if d < 1/2 then f else if 1/2 < d then f + 1 else if even f then f else f + 1)"

fun up :: "nat \<Rightarrow> real \<Rightarrow> real" where
  "up 0 x = of_int (round_even x)"
| "up (Suc n) x = (if 2 ^ 53 \<le> x then 2 * up n (x / 2) else of_int (round_even x))"

fun dn :: "nat \<Rightarrow> real \<Rightarrow> real" where
  "dn 0 x = of_int (round_even x)"
| "dn (Suc n) x = (if x < 2 ^ 52 then dn n (2 * x) / 2 else of_int (round_even x))"

definition round_pos :: "real \<Rightarrow> real" where
  "round_pos x = (if x < 2 ^ 52 then dn 1074 x else up 971 x)"

definition binary64 :: "real \<Rightarrow> real" where
  "binary64 x = (if x < 0 then - round_pos (- x) else round_pos x)"

text \<open>The operations of Python on floats: the operands are converted to binary64 (an
  \<^verbatim>\<open>int\<close> operand is), the exact result is rounded.\<close>

definition fadd :: "real \<Rightarrow> real \<Rightarrow> real" where
  "fadd x y = binary64 (binary64 x + binary64 y)"

definition fsub :: "real \<Rightarrow> real \<Rightarrow> real" where
  "fsub x y = binary64 (binary64 x - binary64 y)"

definition fmul :: "real \<Rightarrow> real \<Rightarrow> real" where
  "fmul x y = binary64 (binary64 x * binary64 y)"

text \<open>
  \<^verbatim>\<open>eval_module\<close>, lines 262-302, in this arithmetic: \<open>seconds_since_called64\<close> is line 275,
  \<open>blend64\<close> line 299, \<open>finish64\<close> lines 298-302. The functions differ from
  \<open>seconds_since_called\<close>, \<open>blend\<close>, \<open>finish\<close> and \<open>eval_module\<close> in the arithmetic only.
\<close>

definition seconds_since_called64 :: "eval_env \<Rightarrow> pydict \<Rightarrow> error + real" where
  "seconds_since_called64 env info =
     (case num_of (get_or info ''timestamp'' (VNum 0)) of
        Inl e \<Rightarrow> Inl e
      | Inr t \<Rightarrow> Inr (fsub (now_check env) t))"

definition blend64 :: "real \<Rightarrow> pydict \<Rightarrow> pydict \<Rightarrow> error + real" where
  "blend64 a resp info =
     (case getitem resp ''w'' of Inl e \<Rightarrow> Inl e | Inr rw \<Rightarrow>
     (case num_of rw of Inl e \<Rightarrow> Inl e | Inr r \<Rightarrow>
     (case getitem info ''w'' of Inl e \<Rightarrow> Inl e | Inr iw \<Rightarrow>
     (case num_of iw of Inl e \<Rightarrow> Inl e | Inr i \<Rightarrow>
        Inr (fadd (fmul r a) (fmul i (fsub 1 a)))))))"

definition finish64 :: "eval_env \<Rightarrow> vali \<Rightarrow> pydict \<Rightarrow> pydict \<Rightarrow> vali \<times> (error + pydict)" where
  "finish64 env v info resp =
     (case getitem info ''timestamp'' of Inl e \<Rightarrow> (v, Inl e) | Inr ts \<Rightarrow>
     (case num_of ts of Inl e \<Rightarrow> (v, Inl e) | Inr t \<Rightarrow>
     (let info = info(''latency'' \<mapsto> VNum (fsub (now_latency env) t)) in
     (case blend64 (alpha (cfg v)) resp info of Inl e \<Rightarrow> (v, Inl e) | Inr w \<Rightarrow>
     (let info = info(''w'' \<mapsto> VNum w) in
     (case getitem info ''name'' of Inl e \<Rightarrow> (v, Inl e) | Inr name \<Rightarrow>
        (v\<lparr>storage := (storage v)(name \<mapsto> info)\<rparr>,
         Inr [''w'' \<mapsto> VNum w,
              ''module'' \<mapsto> name,
              ''address'' \<mapsto> get_or info ''address'' VNone,
              ''latency'' \<mapsto> VNum (fsub (now_latency env) t)])))))))"

definition eval_module64 :: "eval_env \<Rightarrow> vali \<Rightarrow> string \<Rightarrow> vali \<times> call list \<times> (error + pydict)" where
  "eval_module64 env v m =
     (let info = get_module_info v m;
          address = get_or info ''address'' VNone
      in case connect_out env of
           Some e \<Rightarrow> (v, [Connect address], Inl e)
         | None \<Rightarrow>
             let v = v\<lparr>requests := requests v + 1\<rparr> in
             (case seconds_since_called64 env info of
                Inl e \<Rightarrow> (v, [Connect address], Inl e)
              | Inr s \<Rightarrow>
                  if s < max_age (cfg v) then
                    (v, [Connect address], Inr (cached_result env info))
                  else
                    (case info_out env of
                       Inl e \<Rightarrow> (v, [Connect address, Info], Inl e)
                     | Inr module_info \<Rightarrow>
                         if info ''address'' = None \<or> info ''name'' = None then
                           (v, [Connect address, Info], Inl AssertionError)
                         else
                           let info = info ++ module_info;
                               info = info(''timestamp'' \<mapsto> VNum (now_stamp env));
                               (info, resp) = score_step (score_out env) info;
                               (v, res) = finish64 env v info resp
                           in (v, [Connect address, Info, Score], res))))"

text \<open>The score stored under the name of the module before the first and after each of a
  sequence of evaluations, each made on the validator the one before left.\<close>

fun score_trace64 :: "eval_env list \<Rightarrow> vali \<Rightarrow> string \<Rightarrow> pyval option list" where
  "score_trace64 [] v m = [stored_score v (fst (resolve v m))]"
| "score_trace64 (env # envs) v m =
     stored_score v (fst (resolve v m)) # score_trace64 envs (fst (eval_module64 env v m)) m"

section \<open>The epoch scheduler\<close>

text \<open>
  \<^verbatim>\<open>epoch\<close>, lines 102-164. The tasks run on the executor's threads; the scheduler only sees
  the futures. A future is the address it was submitted for and the result its task
  delivers. \<open>task_result\<close> is what \<^verbatim>\<open>future.result()\<close> returns for a task, \<open>is_error\<close> is
  \<^verbatim>\<open>c.is_error\<close>; both come from outside the file. Of the attributes the loop writes,
  \<^verbatim>\<open>last_sync_time\<close> is left out: nothing in the loop reads it.
\<close>

record 'r executor =
  task_result :: "string \<Rightarrow> 'r"
  is_error :: "'r \<Rightarrow> bool"

text \<open>What one wait on \<^verbatim>\<open>c.as_completed\<close> does: it yields the future at a position of the
  list first, or the wait (or \<^verbatim>\<open>result()\<close>) raises, a timeout for instance.\<close>

datatype drain = Completed nat | Raised

record tick =
  drained :: drain
  clock :: real

record 'r scheduler =
  futures :: "(string \<times> 'r) list"
  results :: "'r list"
  submitted :: "string list"
  errors :: nat
  successes :: nat
  last_sent :: real
  last_success :: real
  last_print :: real
  snapshots :: "nat list"

text \<open>Lines 118-126: the result of the ready future is recorded and the future removed.\<close>

definition record_result :: "'r executor \<Rightarrow> real \<Rightarrow> 'r \<Rightarrow> 'r scheduler \<Rightarrow> 'r scheduler" where
  "record_result ex now r st =
     (let st = st\<lparr>results := results st @ [r]\<rparr>
      in if is_error ex r then st\<lparr>errors := errors st + 1\<rparr>
         else st\<lparr>successes := successes st + 1, last_success := now\<rparr>)"

definition remove_at :: "nat \<Rightarrow> 'a list \<Rightarrow> 'a list" where
  "remove_at k xs = take k xs @ drop (Suc k) xs"

text \<open>Lines 137-153: the snapshot, at most once per \<open>print_interval\<close>. Of the statistics the
  model keeps the number of pending futures.\<close>

definition report :: "config \<Rightarrow> real \<Rightarrow> 'r scheduler \<Rightarrow> 'r scheduler" where
  "report c now st =
     (if now - last_print st > print_interval c
      then st\<lparr>snapshots := snapshots st @ [length (futures st)], last_print := now\<rparr>
      else st)"

text \<open>One iteration of the loop of line 109, for the address \<open>a\<close>. With room in the pool the
  address is submitted. Otherwise the scheduler waits for one future; the \<^verbatim>\<open>except\<close> branch
  cancels the futures, counts an error for each, leaves the list as it is and goes on with
  the next address (\<^verbatim>\<open>continue\<close>).\<close>

definition epoch_step :: "'r executor \<Rightarrow> config \<Rightarrow> tick \<Rightarrow> string \<Rightarrow> 'r scheduler \<Rightarrow> 'r scheduler" where
  "epoch_step ex c t a st =
     (if int (length (futures st)) < batch_size c then
        report c (clock t)
          (st\<lparr>last_sent := clock t,
              futures := futures st @ [(a, task_result ex a)],
              submitted := submitted st @ [a]\<rparr>)
      else if futures st = [] then report c (clock t) st
      else
        (case drained t of
           Completed k \<Rightarrow>
             (let k = k mod length (futures st);
                  st = record_result ex (clock t) (snd (futures st ! k)) st
              in report c (clock t) (st\<lparr>futures := remove_at k (futures st)\<rparr>))
         | Raised \<Rightarrow> st\<lparr>errors := errors st + length (futures st)\<rparr>))"

fun epoch_loop ::
  "'r executor \<Rightarrow> config \<Rightarrow> (nat \<Rightarrow> tick) \<Rightarrow> nat \<Rightarrow> string list \<Rightarrow> 'r scheduler \<Rightarrow> 'r scheduler" where
  "epoch_loop ex c orc i [] st = st"
| "epoch_loop ex c orc i (a # as) st = epoch_loop ex c orc (Suc i) as (epoch_step ex c (orc i) a st)"

text \<open>The scheduler before each iteration and after the last one.\<close>

fun epoch_states ::
  "'r executor \<Rightarrow> config \<Rightarrow> (nat \<Rightarrow> tick) \<Rightarrow> nat \<Rightarrow> string list \<Rightarrow> 'r scheduler \<Rightarrow> 'r scheduler list" where
  "epoch_states ex c orc i [] st = [st]"
| "epoch_states ex c orc i (a # as) st =
     st # epoch_states ex c orc (Suc i) as (epoch_step ex c (orc i) a st)"

text \<open>Lines 154-163: the futures left are drained in the order they complete. The wait
  raises when the next one does not complete in time (\<open>Raised\<close>, or no completion left to
  offer); nothing catches that.\<close>

fun drain_rest ::
  "'r executor \<Rightarrow> real \<Rightarrow> drain list \<Rightarrow> (string \<times> 'r) list \<Rightarrow> 'r scheduler \<Rightarrow> 'r scheduler \<times> error option" where
  "drain_rest ex now ds [] st = (st, None)"
| "drain_rest ex now [] (f # fs) st = (st, Some TimeoutError)"
| "drain_rest ex now (Raised # ds) (f # fs) st = (st, Some TimeoutError)"
| "drain_rest ex now (Completed k # ds) (f # fs) st =
     (let k = k mod length (f # fs)
      in drain_rest ex now ds (remove_at k (f # fs)) (record_result ex now (snd ((f # fs) ! k)) st))"

text \<open>
  \<^verbatim>\<open>epoch\<close>: \<open>module_addresses\<close> is the shuffled list of the namespace's addresses, \<open>orc\<close>
  gives the wait and the clock of each iteration, \<open>ds\<close> the waits of the final drain.
  \<open>epoch_start\<close> is lines 104-106: no future in flight, no result yet.
\<close>

definition epoch_start :: "'r scheduler \<Rightarrow> 'r scheduler" where
  "epoch_start st = st\<lparr>futures := [], results := [], submitted := []\<rparr>"

definition epoch ::
  "'r executor \<Rightarrow> config \<Rightarrow> (nat \<Rightarrow> tick) \<Rightarrow> real \<Rightarrow> drain list \<Rightarrow> string list \<Rightarrow> 'r scheduler
     \<Rightarrow> 'r scheduler \<times> (error + 'r list)" where
  "epoch ex c orc now ds module_addresses st =
     (let st = epoch_loop ex c orc 0 module_addresses (epoch_start st)
      in case drain_rest ex now ds (futures st) st of
           (st, Some e) \<Rightarrow> (st, Inl e)
         | (st, None) \<Rightarrow> (st, Inr (results st)))"

section \<open>The vote pipeline\<close>

text \<open>\<^verbatim>\<open>'subspace' in network\<close>: the substring test of Python on strings.\<close>

fun startswith :: "string \<Rightarrow> string \<Rightarrow> bool" where
  "startswith s [] = True"
| "startswith [] (p # ps) = False"
| "startswith (x # xs) (p # ps) = (x = p \<and> startswith xs ps)"

fun contains :: "string \<Rightarrow> string \<Rightarrow> bool" where
  "contains sub [] = (sub = [])"
| "contains sub (x # xs) = (startswith (x # xs) sub \<or> contains sub xs)"

text \<open>
  What the vote pipeline gets from outside during one call of \<^verbatim>\<open>vote\<close>: the block height of
  the chain and the validator's \<^verbatim>\<open>last_update\<close> there (\<^verbatim>\<open>vote_staleness\<close>, lines 517-521), the
  map \<^verbatim>\<open>key2uid\<close> of the ledger, the contents of the files of \<^verbatim>\<open>module_paths\<close> in the order
  they are listed (\<open>None\<close> where the read gave no dictionary), whether \<^verbatim>\<open>c.vote\<close> raises, and
  the readings of \<^verbatim>\<open>c.time()\<close>: one for the listing of the records, one for the timestamp of
  the votes, one for \<^verbatim>\<open>last_vote_time\<close>. The reads of the chain are taken to return, and to
  return the same within one call.
\<close>

record vote_env =
  chain_block :: int
  chain_last_update :: int
  key2uid :: "string \<rightharpoonup> int"
  module_files :: "pydict option list"
  vote_out :: "error option"
  now_list :: real
  now_votes :: real
  now_voted :: real

text \<open>The projection \<^verbatim>\<open>{k: s.get(k, None) for k in keys}\<close> of line 452.\<close>

definition project :: "string list \<Rightarrow> pydict \<Rightarrow> pydict" where
  "project ks s = map_of (map (\<lambda>k. (k, get_or s k VNone)) ks)"

text \<open>
  \<^verbatim>\<open>module_infos\<close>, lines 424-460, as \<^verbatim>\<open>votes\<close> calls it (\<^verbatim>\<open>update=True\<close>): the records that
  are dictionaries with the key \<^verbatim>\<open>ss58_address\<close> and whose staleness is at most \<open>max_age\<close>
  (1000 where the caller passes none), projected on \<open>keys\<close>, sorted by decreasing staleness
  when \<open>keys\<close> keeps it (\<^verbatim>\<open>sorted\<close> is stable, every other key is 0). The write of the list to
  \<^verbatim>\<open>cache/module_infos\<close> is left out.
\<close>

fun list_records :: "real \<Rightarrow> real \<Rightarrow> string list \<Rightarrow> pydict option list \<Rightarrow> error + pydict list" where
  "list_records now age ks [] = Inr []"
| "list_records now age ks (None # rest) = list_records now age ks rest"
| "list_records now age ks (Some s # rest) =
     (if s ''ss58_address'' = None then list_records now age ks rest
      else
        (case num_of (get_or s ''timestamp'' (VNum 0)) of
           Inl e \<Rightarrow> Inl e
         | Inr t \<Rightarrow>
             if now - t > age then list_records now age ks rest
             else
               (case list_records now age ks rest of
                  Inl e \<Rightarrow> Inl e
                | Inr infos \<Rightarrow> Inr (project ks (s(''staleness'' \<mapsto> VNum (now - t))) # infos))))"

definition staleness_key :: "pydict \<Rightarrow> real" where
  "staleness_key x = (case x ''staleness'' of Some (VNum r) \<Rightarrow> r | _ \<Rightarrow> 0)"

definition module_infos :: "real \<Rightarrow> real \<Rightarrow> string list \<Rightarrow> pydict option list \<Rightarrow> error + pydict list" where
  "module_infos now age ks files =
     (case list_records now age ks files of
        Inl e \<Rightarrow> Inl e
      | Inr infos \<Rightarrow> Inr (sort_key (\<lambda>x. - staleness_key x) infos))"

text \<open>Lines 336-342: the loop of \<^verbatim>\<open>votes\<close> over the listed records; \<open>vote_entry\<close> is what
  one record adds, if anything. In \<^verbatim>\<open>info['w'] >= 0\<close> a number or a bool compares, anything
  else raises; a bool weight counts as 0 or 1. A key that is no string is no key of
  \<^verbatim>\<open>key2uid\<close>.\<close>

definition vote_entry :: "(string \<rightharpoonup> int) \<Rightarrow> pydict \<Rightarrow> error + (string \<times> real \<times> int) option" where
  "vote_entry k2u info =
     (if info ''ss58_address'' = None then Inr None
      else
        (case getitem info ''w'' of
           Inl e \<Rightarrow> Inl e
         | Inr x \<Rightarrow>
             (case num_of x of
                Inl e \<Rightarrow> Inl e
              | Inr w \<Rightarrow>
                  if w \<ge> 0 then
                    (case info ''ss58_address'' of
                       Some (VStr key) \<Rightarrow>
                         (case k2u key of
                            Some uid \<Rightarrow> Inr (Some (key, w, uid))
                          | None \<Rightarrow> Inr None)
                     | _ \<Rightarrow> Inr None)
                  else Inr None)))"

fun collect_votes :: "(string \<rightharpoonup> int) \<Rightarrow> pydict list \<Rightarrow> voteset \<Rightarrow> error + voteset" where
  "collect_votes k2u [] vs = Inr vs"
| "collect_votes k2u (info # infos) vs =
     (case vote_entry k2u info of
        Inl e \<Rightarrow> Inl e
      | Inr None \<Rightarrow> collect_votes k2u infos vs
      | Inr (Some (key, w, uid)) \<Rightarrow>
          collect_votes k2u infos
            (vs\<lparr>vote_keys := vote_keys vs @ [key],
                weights := weights vs @ [w],
                uids := uids vs @ [uid]\<rparr>))"

text \<open>\<^verbatim>\<open>votes\<close>, lines 331-346; \<open>vote_fields\<close> are the keys it asks \<^verbatim>\<open>module_infos\<close> for.\<close>

definition vote_fields :: "string list" where
  "vote_fields = [''name'', ''w'', ''ss58_address'']"

definition votes :: "vote_env \<Rightarrow> error + voteset" where
  "votes env =
     (case module_infos (now_list env) 1000 vote_fields (module_files env) of
        Inl e \<Rightarrow> Inl e
      | Inr infos \<Rightarrow>
          collect_votes (key2uid env) infos
            \<lparr>vote_keys = [], weights = [], uids = [], timestamp = now_votes env\<rparr>)"

text \<open>\<^verbatim>\<open>vote_staleness\<close>, lines 517-521.\<close>

definition vote_staleness :: "vote_env \<Rightarrow> vali \<Rightarrow> int" where
  "vote_staleness env v =
     (if contains ''subspace'' (network (cfg v)) then chain_block env - chain_last_update env else 0)"

text \<open>
  \<^verbatim>\<open>vote\<close>, lines 366-402. The result is the validator after the call, the vote sets handed to
  \<^verbatim>\<open>c.vote\<close>, and what the caller gets: an exception, the future of the deferred call
  (\<^verbatim>\<open>async_vote\<close>), or the dictionary returned. Of the dictionary the model keeps \<^verbatim>\<open>success\<close>,
  the message and the counts; the mean and the deviation of the weights come from helpers
  outside the file.
\<close>

datatype vote_result = Deferred | Returned pydict

definition vote :: "vote_env \<Rightarrow> bool \<Rightarrow> bool \<Rightarrow> vali \<Rightarrow> vali \<times> voteset list \<times> (error + vote_result)" where
  "vote env async_vote save v =
     (if real_of_int (vote_staleness env v) < vote_interval (cfg v) then
        (v, [], Inr (Returned
           [''success'' \<mapsto> VBool False, ''msg'' \<mapsto> VStr ''Vote is too new'',
            ''vote_staleness'' \<mapsto> VNum (vote_staleness env v),
            ''vote_interval'' \<mapsto> VNum (vote_interval (cfg v))]))
      else if \<not> contains ''subspace'' (network (cfg v)) \<and> \<not> contains ''bittensor'' (network (cfg v)) then
        (v, [], Inr (Returned
           [''success'' \<mapsto> VBool False, ''msg'' \<mapsto> VStr ''Not a voting network'',
            ''network'' \<mapsto> VStr (network (cfg v))]))
      else if async_vote then (v, [], Inr Deferred)
      else
        (case votes env of
           Inl e \<Rightarrow> (v, [], Inl e)
         | Inr vs \<Rightarrow>
             if int (length (uids vs)) < min_num_weights (cfg v) then
               (v, [], Inr (Returned
                  [''success'' \<mapsto> VBool False, ''msg'' \<mapsto> VStr ''The votes are too low'',
                   ''votes'' \<mapsto> VNum (length (uids vs)),
                   ''min_num_weights'' \<mapsto> VNum (min_num_weights (cfg v))]))
             else
               (case vote_out env of
                  Some e \<Rightarrow> (v, [vs], Inl e)
                | None \<Rightarrow>
                    (let v = (if save then v\<lparr>saved_votes := Some vs\<rparr> else v);
                         v = v\<lparr>last_vote_time := now_voted env\<rparr>
                     in (v, [vs], Inr (Returned
                          [''success'' \<mapsto> VBool True, ''message'' \<mapsto> VStr ''Voted'',
                           ''num_uids'' \<mapsto> VNum (length (uids vs)),
                           ''timestamp'' \<mapsto> VNum (now_voted env),
                           ''saved'' \<mapsto> VBool save]))))))"

text \<open>
  The records a vote is built from, in the words of the vote pipeline: a record is eligible
  when it has an identity (a string under \<^verbatim>\<open>ss58_address\<close>), the listing keeps it (staleness
  at most 1000), its score is not negative, and the ledger resolves the identity to a slot.
  \<open>eligible\<close> gives the identity, the weight and the slot of such a record, \<open>numeric_record\<close>
  says that the timestamp and the score of a record with an identity are numbers.
\<close>

definition eligible :: "vote_env \<Rightarrow> pydict \<Rightarrow> (string \<times> real \<times> int) option" where
  "eligible env s =
     (case (s ''ss58_address'', s ''w'') of
        (Some (VStr key), Some x) \<Rightarrow>
          (case (num_of (get_or s ''timestamp'' (VNum 0)), num_of x, key2uid env key) of
             (Inr t, Inr w, Some uid) \<Rightarrow>
               if now_list env - t \<le> 1000 \<and> 0 \<le> w then Some (key, w, uid) else None
           | _ \<Rightarrow> None)
      | _ \<Rightarrow> None)"

definition eligible_entries :: "vote_env \<Rightarrow> (string \<times> real \<times> int) list" where
  "eligible_entries env =
     List.map_filter (\<lambda>f. case f of None \<Rightarrow> None | Some s \<Rightarrow> eligible env s) (module_files env)"

text \<open>A vote set with the entries \<open>el\<close> appended.\<close>

definition add_votes :: "(string \<times> real \<times> int) list \<Rightarrow> voteset \<Rightarrow> voteset" where
  "add_votes el vs =
     vs\<lparr>vote_keys := vote_keys vs @ map fst el,
        weights := weights vs @ map (fst \<circ> snd) el,
        uids := uids vs @ map (snd \<circ> snd) el\<rparr>"

definition numeric_record :: "pydict \<Rightarrow> bool" where
  "numeric_record s =
     (s ''ss58_address'' = None \<or>
      (\<not> isl (num_of (get_or s ''timestamp'' (VNum 0))) \<and>
       (case s ''w'' of None \<Rightarrow> False | Some x \<Rightarrow> \<not> isl (num_of x))))"

definition numeric_files :: "pydict option list \<Rightarrow> bool" where
  "numeric_files files = list_all (\<lambda>f. case f of None \<Rightarrow> True | Some s \<Rightarrow> numeric_record s) files"

section \<open>Scenarios\<close>

text \<open>
  The namespace of the spec's scenario, \<^verbatim>\<open>{m1: "addr1", m2: "addr2"}\<close>, with \<^verbatim>\<open>alpha = 0.2\<close>,
  \<^verbatim>\<open>max_age = 60\<close> and \<^verbatim>\<open>batch_size = 2\<close>. \<open>vali0\<close> has an empty store; \<open>vali_zero\<close> holds
  a record of \<^verbatim>\<open>m1\<close> with score 0 and \<open>vali_known\<close> one with score 1, both written at time 100.
\<close>

definition cfg0 :: config where
  "cfg0 = \<lparr>max_age = 60, alpha = 1/5, batch_size = 2, print_interval = 10,
           vote_interval = 100, min_num_weights = 1, network = ''subspace''\<rparr>"

definition vali0 :: vali where
  "vali0 = \<lparr>cfg = cfg0,
            namespace = [''m1'' \<mapsto> ''addr1'', ''m2'' \<mapsto> ''addr2''],
            address2name = [''addr1'' \<mapsto> ''m1'', ''addr2'' \<mapsto> ''m2''],
            requests = 0,
            storage = Map.empty,
            last_vote_time = 0,
            saved_votes = None\<rparr>"

definition vali_zero :: vali where
  "vali_zero = vali0\<lparr>storage := [VStr ''m1'' \<mapsto> [''w'' \<mapsto> VNum 0, ''timestamp'' \<mapsto> VNum 100]]\<rparr>"

definition vali_known :: vali where
  "vali_known = vali0\<lparr>storage := [VStr ''m1'' \<mapsto> [''w'' \<mapsto> VNum 1, ''timestamp'' \<mapsto> VNum 100]]\<rparr>"

text \<open>At time 1000 the module answers and the default scoring function returns weight 1
  (\<open>env_success\<close>); the scoring function raises (\<open>env_raise\<close>); the connection fails
  (\<open>env_unreachable\<close>); \<^verbatim>\<open>module.info\<close> times out (\<open>env_slow\<close>). \<open>env_soon\<close> is a call at
  time 130 (\<open>env_soon_unreachable\<close>: the connection fails then), \<open>env_again\<close> one at time
  1010, \<open>env_later\<close> a failing one at time 2000. \<open>env_t155\<close> is a call at time 155 and
  \<open>env_t165\<close> one at time 165 in which the scoring function raises.\<close>

definition env_success :: eval_env where
  "env_success =
     \<lparr>connect_out = None,
      info_out = Inr [''name'' \<mapsto> VStr ''m1'', ''ss58_address'' \<mapsto> VStr ''key1''],
      score_out = Inr score_module_default,
      now_check = 1000, now_hit = 1000, now_stamp = 1000, now_latency = 1001\<rparr>"

definition env_raise :: eval_env where
  "env_raise = env_success\<lparr>score_out := Inl (OtherError ''boom'')\<rparr>"

definition env_unreachable :: eval_env where
  "env_unreachable = env_success\<lparr>connect_out := Some ConnectionError\<rparr>"

definition env_slow :: eval_env where
  "env_slow = env_success\<lparr>info_out := Inl TimeoutError\<rparr>"

definition env_soon :: eval_env where
  "env_soon = env_success\<lparr>now_check := 130, now_hit := 130\<rparr>"

definition env_soon_unreachable :: eval_env where
  "env_soon_unreachable = env_soon\<lparr>connect_out := Some ConnectionError\<rparr>"

definition env_t155 :: eval_env where
  "env_t155 = env_success\<lparr>now_check := 155, now_hit := 155\<rparr>"

definition env_t165 :: eval_env where
  "env_t165 = env_raise\<lparr>now_check := 165, now_hit := 165, now_stamp := 165, now_latency := 166\<rparr>"

definition env_again :: eval_env where
  "env_again = env_success\<lparr>now_check := 1010, now_hit := 1010\<rparr>"

definition env_later :: eval_env where
  "env_later = env_raise\<lparr>now_check := 2000, now_hit := 2000, now_stamp := 2000, now_latency := 2001\<rparr>"

text \<open>The validator after the first evaluation of \<^verbatim>\<open>m1\<close> from score 0, at time 1000.\<close>

definition vali_after :: vali where
  "vali_after = fst (eval_module env_success vali_zero ''addr1'')"

text \<open>
  An epoch over three addresses with \<^verbatim>\<open>batch_size = 2\<close>: every task succeeds with weight 1,
  every wait yields the oldest future first, the clock of iteration \<open>i\<close> reads \<open>i\<close>.
\<close>

definition executor0 :: "pydict executor" where
  "executor0 =
     \<lparr>task_result = (\<lambda>a. [''w'' \<mapsto> VNum 1, ''address'' \<mapsto> VStr a]),
      is_error = (\<lambda>r. r ''error'' \<noteq> None)\<rparr>"

definition oracle0 :: "nat \<Rightarrow> tick" where
  "oracle0 i = \<lparr>drained = Completed 0, clock = real i\<rparr>"

definition scheduler0 :: "pydict scheduler" where
  "scheduler0 =
     \<lparr>futures = [], results = [], submitted = [], errors = 0, successes = 0,
      last_sent = 0, last_success = 0, last_print = 0, snapshots = []\<rparr>"

definition three_addresses :: "string list" where
  "three_addresses = [''addr1'', ''addr2'', ''addr3'']"

text \<open>
  The store of the spec's vote scenario at time 2000: record \<^verbatim>\<open>A\<close> with identity \<^verbatim>\<open>x\<close> and
  score 5, record \<^verbatim>\<open>B\<close> with the empty identity and score 9, both written at time 1990; the
  ledger resolves \<^verbatim>\<open>x\<close> to slot 1. The chain is at block 5000 and saw the validator's last
  update at block 4000 (\<open>vote_env0\<close>) or at block 4950 (\<open>vote_env_recent\<close>). \<open>vali_voted\<close>
  voted at time 2000. In \<open>vote_env_old\<close> record \<^verbatim>\<open>A\<close> was written at time 0 and the ledger also
  has a slot for the empty key.
\<close>

definition record_A :: pydict where
  "record_A = [''name'' \<mapsto> VStr ''A'', ''ss58_address'' \<mapsto> VStr ''x'', ''w'' \<mapsto> VNum 5,
               ''timestamp'' \<mapsto> VNum 1990]"

definition record_B :: pydict where
  "record_B = [''name'' \<mapsto> VStr ''B'', ''ss58_address'' \<mapsto> VStr [], ''w'' \<mapsto> VNum 9,
               ''timestamp'' \<mapsto> VNum 1990]"

definition vote_env0 :: vote_env where
  "vote_env0 =
     \<lparr>chain_block = 5000, chain_last_update = 4000,
      key2uid = [''x'' \<mapsto> 1],
      module_files = [Some record_A, Some record_B],
      vote_out = None,
      now_list = 2000, now_votes = 2000, now_voted = 2001\<rparr>"

definition vote_env_recent :: vote_env where
  "vote_env_recent = vote_env0\<lparr>chain_last_update := 4950\<rparr>"

definition vote_env_old :: vote_env where
  "vote_env_old =
     vote_env0\<lparr>key2uid := [''x'' \<mapsto> 1, [] \<mapsto> 0],
               module_files := [Some (record_A(''timestamp'' \<mapsto> VNum 0)), Some record_B]\<rparr>"

definition vali_voted :: vali where
  "vali_voted = vali0\<lparr>last_vote_time := 2000\<rparr>"

text \<open>
  The scoring function returns the bare weight 3 (\<open>env_weight3\<close>). The module reports a
  score of 5 in its metadata and the scoring function raises (\<open>env_boast\<close>). \<open>vali_tiny\<close> is
  \<open>vali_known\<close> with \<^verbatim>\<open>alpha\<close> set to \<open>2^-60\<close>.
\<close>

definition env_weight3 :: eval_env where
  "env_weight3 = env_success\<lparr>score_out := Inr (RVal (VNum 3))\<rparr>"

definition env_boast :: eval_env where
  "env_boast = env_raise\<lparr>info_out := Inr [''name'' \<mapsto> VStr ''m1'', ''w'' \<mapsto> VNum 5]\<rparr>"

definition vali_tiny :: vali where
  "vali_tiny = vali_known\<lparr>cfg := cfg0\<lparr>alpha := 1 / 2 ^ 60\<rparr>\<rparr>"

section \<open>Properties of \<^verbatim>\<open>eval_module\<close>\<close>

subsection \<open>The paths through the function\<close>

lemma get_module_info_name: "get_module_info v m ''name'' = Some (VStr (fst (resolve v m)))"
  by (simp add: get_module_info_def Let_def split: prod.splits)

lemma get_module_info_address: "get_module_info v m ''address'' = Some (snd (resolve v m))"
  by (simp add: get_module_info_def Let_def split: prod.splits)

lemma get_module_info_w: "get_module_info v m ''w'' = load_module_info v (fst (resolve v m)) ''w''"
  by (simp add: get_module_info_def Let_def split: prod.splits)

lemma get_module_info_timestamp:
  "get_module_info v m ''timestamp'' = load_module_info v (fst (resolve v m)) ''timestamp''"
  by (simp add: get_module_info_def Let_def split: prod.splits)





lemma eval_module_miss:
  assumes "connect_out env = None"
    and "seconds_since_called env (get_module_info v m) = Inr s"
    and "\<not> s < max_age (cfg v)"
    and "info_out env = Inr mi"
  shows "eval_module env v m =
           (case score_step (score_out env)
                   ((get_module_info v m ++ mi)(''timestamp'' \<mapsto> VNum (now_stamp env))) of
              (info, resp) \<Rightarrow>
                (case finish env (v\<lparr>requests := requests v + 1\<rparr>) info resp of
                   (v', res) \<Rightarrow> (v', [Connect (snd (resolve v m)), Info, Score], res)))"
  using assms
  by (simp add: eval_module_def Let_def get_or_def get_module_info_address get_module_info_name)

lemma finish_requests: "requests (fst (finish env v info resp)) = requests v"
  by (simp add: finish_def Let_def split: sum.splits)

lemma finish_cfg: "cfg (fst (finish env v info resp)) = cfg v"
  by (simp add: finish_def Let_def split: sum.splits)

lemma finish_namespace:
  "namespace (fst (finish env v info resp)) = namespace v \<and>
   address2name (fst (finish env v info resp)) = address2name v"
  by (simp add: finish_def Let_def split: sum.splits)

lemma score_step_raises:
  "scoring_raises out \<Longrightarrow> score_step out info = (info, failed_response)"
  by (auto simp: scoring_raises_def score_step_def split: sum.splits)

lemma check_response_w: "check_response r = Inr resp \<Longrightarrow> \<exists>x. resp ''w'' = Some x"
  by (cases r rule: check_response.cases) (auto split: option.splits)

lemma score_step_returns:
  assumes "\<not> scoring_raises out"
  shows "\<exists>resp x. score_step out info = (info ++ resp, resp) \<and> resp ''w'' = Some x"
proof -
  from assms obtain r resp where "out = Inr r" "check_response r = Inr resp"
    by (cases out; cases "check_response (projr out)"; simp add: scoring_raises_def)
  then show ?thesis
    using check_response_w [of r resp] by (auto simp: score_step_def)
qed


lemma blend_failed:
  assumes "info ''w'' = Some x" and "num_of x = Inr i"
  shows "blend a failed_response info = Inr (i * (1 - a))"
  using assms by (simp add: blend_def failed_response_def getitem_def)

lemma blend_failed_KeyError:
  "info ''w'' = None \<Longrightarrow> blend a failed_response info = Inl KeyError"
  by (simp add: blend_def failed_response_def getitem_def)

lemma blend_updated:
  assumes "resp ''w'' = Some x" and "info ''w'' = Some x" and "num_of x = Inr r"
  shows "blend a resp info = Inr r"
  using assms by (simp add: blend_def getitem_def algebra_simps)

lemma finish_Inl: "finish env v info resp = (v', Inl e) \<Longrightarrow> v' = v"
  by (auto simp: finish_def Let_def split: sum.splits)


lemma finish_failed:
  assumes "info ''timestamp'' = Some (VNum t)" and "info ''name'' = Some nm"
    and "info ''w'' = Some x" and "num_of x = Inr i"
  shows "finish env v info failed_response =
           (v\<lparr>storage := (storage v)(nm \<mapsto>
                 info(''latency'' \<mapsto> VNum (now_latency env - t), ''w'' \<mapsto> VNum (i * (1 - alpha (cfg v)))))\<rparr>,
            Inr [''w'' \<mapsto> VNum (i * (1 - alpha (cfg v))),
                 ''module'' \<mapsto> nm,
                 ''address'' \<mapsto> get_or info ''address'' VNone,
                 ''latency'' \<mapsto> VNum (now_latency env - t)])"
proof -
  have "blend (alpha (cfg v)) failed_response (info(''latency'' \<mapsto> VNum (now_latency env - t)))
          = Inr (i * (1 - alpha (cfg v)))"
    using assms by (intro blend_failed [where x = x]) simp_all
  then show ?thesis
    using assms by (simp add: finish_def Let_def getitem_def get_or_def)
qed

lemma finish_failed_KeyError:
  assumes "info ''timestamp'' = Some (VNum t)" and "info ''w'' = None"
  shows "finish env v info failed_response = (v, Inl KeyError)"
proof -
  have "blend (alpha (cfg v)) failed_response (info(''latency'' \<mapsto> VNum (now_latency env - t)))
          = Inl KeyError"
    using assms by (intro blend_failed_KeyError) simp
  then show ?thesis
    using assms by (simp add: finish_def Let_def getitem_def)
qed

lemma eval_module_failed:
  assumes "connect_out env = None"
    and "seconds_since_called env (get_module_info v m) = Inr s"
    and "\<not> s < max_age (cfg v)"
    and "info_out env = Inr mi"
    and "scoring_raises (score_out env)"
    and "(get_module_info v m ++ mi) ''w'' = Some x"
    and "num_of x = Inr i"
  shows "\<exists>nm rec r.
           eval_module env v m =
             (v\<lparr>requests := requests v + 1, storage := (storage v)(nm \<mapsto> rec)\<rparr>,
              [Connect (snd (resolve v m)), Info, Score], Inr r) \<and>
           (get_module_info v m ++ mi) ''name'' = Some nm \<and>
           rec ''w'' = Some (VNum (i * (1 - alpha (cfg v)))) \<and>
           rec ''timestamp'' = Some (VNum (now_stamp env)) \<and>
           r ''w'' = Some (VNum (i * (1 - alpha (cfg v))))"
proof -
  let ?info = "(get_module_info v m ++ mi)(''timestamp'' \<mapsto> VNum (now_stamp env))"
  let ?v = "v\<lparr>requests := requests v + 1\<rparr>"
  obtain nm where nm: "(get_module_info v m ++ mi) ''name'' = Some nm"
    by (cases "mi ''name''") (simp_all add: map_add_def get_module_info_name)
  have w: "?info ''w'' = Some x" using assms(6) by simp
  let ?rec = "?info(''latency'' \<mapsto> VNum (now_latency env - now_stamp env),
                    ''w'' \<mapsto> VNum (i * (1 - alpha (cfg v))))"
  let ?r = "[''w'' \<mapsto> VNum (i * (1 - alpha (cfg v))),
             ''module'' \<mapsto> nm,
             ''address'' \<mapsto> get_or ?info ''address'' VNone,
             ''latency'' \<mapsto> VNum (now_latency env - now_stamp env)]"
  have "finish env ?v ?info failed_response =
          (?v\<lparr>storage := (storage ?v)(nm \<mapsto>
                ?info(''latency'' \<mapsto> VNum (now_latency env - now_stamp env),
                      ''w'' \<mapsto> VNum (i * (1 - alpha (cfg ?v)))))\<rparr>,
           Inr [''w'' \<mapsto> VNum (i * (1 - alpha (cfg ?v))),
                ''module'' \<mapsto> nm,
                ''address'' \<mapsto> get_or ?info ''address'' VNone,
                ''latency'' \<mapsto> VNum (now_latency env - now_stamp env)])"
    using nm w assms(7) by (intro finish_failed [where x = x]) simp_all
  then have em: "eval_module env v m =
      (v\<lparr>requests := requests v + 1, storage := (storage v)(nm \<mapsto> ?rec)\<rparr>,
       [Connect (snd (resolve v m)), Info, Score], Inr ?r)"
    using assms(1-5) by (simp add: eval_module_miss score_step_raises)
  show ?thesis
    by (rule exI [of _ nm], rule exI [of _ ?rec], rule exI [of _ ?r]) (simp add: em nm)
qed



lemma resolve_cong:
  "namespace v' = namespace v \<Longrightarrow> address2name v' = address2name v \<Longrightarrow> resolve v' m = resolve v m"
  by (simp add: resolve_def split: option.splits)





lemmas scenario_defs =
  cfg0_def vali0_def vali_zero_def vali_known_def env_success_def env_raise_def
  env_unreachable_def env_slow_def env_soon_def env_soon_unreachable_def env_t155_def env_t165_def env_again_def
  env_later_def vali_after_def executor0_def oracle0_def scheduler0_def three_addresses_def
  record_A_def record_B_def vote_env0_def vote_env_recent_def vote_env_old_def vali_voted_def
  score_module_default_def

lemmas eval_defs =
  eval_module_def get_module_info_def resolve_def load_module_info_def seconds_since_called_def
  get_or_def getitem_def score_step_def finish_def blend_def cached_result_def
  failed_response_def scoring_raises_def score_of_def stored_score_def Let_def


subsection \<open>The score after a successful evaluation\<close>

text \<open>
  C1. The claim: a call that reaches the scoring step persists and returns
  \<open>alpha * w_fresh + (1 - alpha) * w_old\<close>; a module with score 0 that succeeds with weight 1
  under \<open>alpha = 0.2\<close> has score 0.2 afterwards. The code at that input: \<^verbatim>\<open>info.update(response)\<close>
  on line 293 writes the fresh weight over \<^verbatim>\<open>info['w']\<close> before line 299 blends, so the blend
  is of the fresh weight with itself. The score returned and the score stored are 1; the
  claim's formula gives 1/5.
\<close>

theorem eval_module_scenario_score:
  "score_of (snd (snd (eval_module env_success vali_zero ''addr1''))) = Some (VNum 1) \<and>
   stored_score (fst (eval_module env_success vali_zero ''addr1'')) ''m1'' = Some (VNum 1) \<and>
   alpha (cfg vali_zero) * 1 + (1 - alpha (cfg vali_zero)) * 0 = 1/5"
  by (simp add: scenario_defs eval_defs)

subsection \<open>The first evaluation of a module whose scoring raises\<close>

text \<open>
  C9. When the connection is made, the record is stale and holds no score \<^verbatim>\<open>w\<close> (nor does
  the module's metadata), and the scoring function or \<^verbatim>\<open>check_response\<close> raises, the
  \<^verbatim>\<open>except\<close> branch leaves the record without \<^verbatim>\<open>w\<close> and line 299 raises \<^verbatim>\<open>KeyError\<close>:
  \<^verbatim>\<open>eval_module\<close> raises to its caller instead of returning a zero-weight result.
\<close>

theorem eval_module_raises_KeyError:
  assumes "connect_out env = None"
    and "seconds_since_called env (get_module_info v m) = Inr s"
    and "\<not> s < max_age (cfg v)"
    and "info_out env = Inr mi"
    and "scoring_raises (score_out env)"
    and "load_module_info v (fst (resolve v m)) ''w'' = None"
    and "mi ''w'' = None"
  shows "snd (snd (eval_module env v m)) = Inl KeyError"
proof -
  let ?info = "(get_module_info v m ++ mi)(''timestamp'' \<mapsto> VNum (now_stamp env))"
  have w: "?info ''w'' = None"
    using assms(6,7) by (simp add: map_add_def get_module_info_w)
  have "finish env (v\<lparr>requests := requests v + 1\<rparr>) ?info failed_response
          = (v\<lparr>requests := requests v + 1\<rparr>, Inl KeyError)"
    using w by (intro finish_failed_KeyError [where t = "now_stamp env"]) simp_all
  then show ?thesis
    using assms(1-5) by (simp add: eval_module_miss score_step_raises)
qed

text \<open>The first evaluation of \<^verbatim>\<open>m1\<close> in the scenario, with a scoring function that raises.\<close>

theorem eval_module_raises_KeyError_witness:
  "snd (snd (eval_module env_raise vali0 ''addr1'')) = Inl KeyError"
  using eval_module_raises_KeyError [of env_raise vali0 "''addr1''" 1000
      "[''name'' \<mapsto> VStr ''m1'', ''ss58_address'' \<mapsto> VStr ''key1'']"]
  by (simp add: scenario_defs eval_defs)

subsection \<open>The request counter\<close>

text \<open>
  C10, as stated, fails: the counter is incremented on line 274, after \<^verbatim>\<open>c.connect\<close>, not
  after the address is resolved on line 272. Here \<^verbatim>\<open>get_module_info\<close> resolves the address
  \<^verbatim>\<open>addr1\<close>, the connection to it fails, and the counter is what it was.
\<close>

theorem eval_module_unreachable_not_counted:
  "get_module_info vali_known ''addr1'' ''address'' = Some (VStr ''addr1'') \<and>
   fst (snd (eval_module env_unreachable vali_known ''addr1'')) = [Connect (VStr ''addr1'')] \<and>
   snd (snd (eval_module env_unreachable vali_known ''addr1'')) = Inl ConnectionError \<and>
   requests (fst (eval_module env_unreachable vali_known ''addr1'')) = requests vali_known"
  by (simp add: scenario_defs eval_defs)

text \<open>
  C10, amended. Every call of \<^verbatim>\<open>eval_module\<close> in which \<^verbatim>\<open>c.connect\<close> returns (line 273) adds
  exactly one to \<^verbatim>\<open>requests\<close>, whatever the call does afterwards: the freshness
  short-circuit, which makes no scoring call, is counted as well.
\<close>

theorem eval_module_counts_request:
  assumes "connect_out env = None"
  shows "requests (fst (eval_module env v m)) = requests v + 1"
proof -
  have "requests (fst (finish env (v\<lparr>requests := requests v + 1\<rparr>) info resp)) = requests v + 1"
    for info resp
    by (simp add: finish_requests)
  then show ?thesis
    using assms
    by (simp add: eval_module_def Let_def split: sum.splits prod.splits)
       (metis fst_conv)
qed

text \<open>A call 30 seconds after the record was written: one request counted, the connection
  the only call, the cached score returned.\<close>

theorem eval_module_counts_request_witness:
  "requests (fst (eval_module env_soon vali_known ''addr1'')) = 1 \<and>
   fst (snd (eval_module env_soon vali_known ''addr1'')) = [Connect (VStr ''addr1'')] \<and>
   score_of (snd (snd (eval_module env_soon vali_known ''addr1''))) = Some (VNum 1)"
  using eval_module_counts_request [of env_soon vali_known "''addr1''"]
  by (simp add: scenario_defs eval_defs)

subsection \<open>Exceptions\<close>

text \<open>
  C3, as stated, fails: \<^verbatim>\<open>c.connect\<close> (line 273) and \<^verbatim>\<open>module.info\<close> (line 283) stand before
  the \<^verbatim>\<open>try\<close> block, and what they raise reaches the caller. Here the connection fails with
  \<^verbatim>\<open>ConnectionError\<close>, and \<^verbatim>\<open>module.info\<close> with \<^verbatim>\<open>TimeoutError\<close>.
\<close>

theorem eval_module_propagates:
  "snd (snd (eval_module env_unreachable vali_known ''addr1'')) = Inl ConnectionError \<and>
   snd (snd (eval_module env_slow vali_known ''addr1'')) = Inl TimeoutError"
  by (simp add: scenario_defs eval_defs)

text \<open>
  C3, amended. Every exception that the scoring function or \<^verbatim>\<open>check_response\<close> raises in an
  evaluation that reached the scoring step (connection made, record stale, metadata
  fetched) is caught: whenever the record then holds a numeric score \<^verbatim>\<open>w\<close>, the weight 0
  is blended into it and \<^verbatim>\<open>eval_module\<close> returns a result.
\<close>

theorem eval_module_scoring_caught:
  assumes "connect_out env = None"
    and "seconds_since_called env (get_module_info v m) = Inr s"
    and "\<not> s < max_age (cfg v)"
    and "info_out env = Inr mi"
    and "scoring_raises (score_out env)"
    and "(get_module_info v m ++ mi) ''w'' = Some x"
    and "num_of x = Inr w_old"
  shows "\<exists>v' r. eval_module env v m = (v', [Connect (snd (resolve v m)), Info, Score], Inr r) \<and>
                 r ''w'' = Some (VNum (0 * alpha (cfg v) + w_old * (1 - alpha (cfg v))))"
  using eval_module_failed [OF assms] by auto

text \<open>The module with score 1 whose scoring raises: the call returns, with score 4/5.\<close>

theorem eval_module_scoring_caught_witness:
  "\<exists>v' r. eval_module env_raise vali_known ''addr1'' =
             (v', [Connect (VStr ''addr1''), Info, Score], Inr r) \<and>
          r ''w'' = Some (VNum (4/5))"
  using eval_module_scoring_caught [of env_raise vali_known "''addr1''" 900
      "[''name'' \<mapsto> VStr ''m1'', ''ss58_address'' \<mapsto> VStr ''key1'']" "VNum 1" 1]
  by (simp add: scenario_defs get_module_info_def resolve_def load_module_info_def
        seconds_since_called_def get_or_def scoring_raises_def Let_def)

subsection \<open>The freshness short-circuit\<close>




subsection \<open>Rounding to binary64\<close>

lemma round_even_of_int [simp]: "round_even (of_int n) = n"
  by (simp add: round_even_def)

lemma round_even_numeral [simp]: "round_even (numeral k) = numeral k"
  using round_even_of_int [of "numeral k"] by (simp del: round_even_of_int)

lemma round_even_0 [simp]: "round_even 0 = 0" and round_even_1 [simp]: "round_even 1 = 1"
  using round_even_of_int [of 0] round_even_of_int [of 1] by (simp_all del: round_even_of_int)

lemma round_even_bounds: "\<lfloor>y\<rfloor> \<le> round_even y \<and> round_even y \<le> \<lfloor>y\<rfloor> + 1"
  by (simp add: round_even_def Let_def)

lemma round_even_mono:
  assumes "y \<le> z"
  shows "round_even y \<le> round_even z"
proof (cases "\<lfloor>y\<rfloor> = \<lfloor>z\<rfloor>")
  case True
  then show ?thesis
    using assms by (auto simp: round_even_def Let_def)
next
  case False
  then have "\<lfloor>y\<rfloor> + 1 \<le> \<lfloor>z\<rfloor>"
    using assms floor_mono [of y z] by linarith
  then show ?thesis
    using round_even_bounds [of y] round_even_bounds [of z] by linarith
qed

lemma round_even_ge: "of_int n \<le> y \<Longrightarrow> n \<le> round_even y"
  using round_even_mono [of "of_int n" y] by simp

lemma round_even_le: "y \<le> of_int n \<Longrightarrow> round_even y \<le> n"
  using round_even_mono [of y "of_int n"] by simp

lemma round_even_ge_real: "of_int n \<le> y \<Longrightarrow> of_int n \<le> (of_int (round_even y) :: real)"
  using round_even_ge [of n y] by simp

lemma round_even_le_real: "y \<le> of_int n \<Longrightarrow> (of_int (round_even y) :: real) \<le> of_int n"
  using round_even_le [of y n] by simp

lemma p52: "(2::real) ^ 52 = of_int (2 ^ 52)" and p53: "(2::real) ^ 53 = of_int (2 ^ 53)"
  by simp_all

lemma up_ge: "2 ^ 52 \<le> x \<Longrightarrow> 2 ^ 52 \<le> up n x"
proof (induction n arbitrary: x)
  case 0
  then show ?case using round_even_ge_real [of "2 ^ 52" x] by simp
next
  case (Suc n)
  show ?case
  proof (cases "2 ^ 53 \<le> x")
    case True
    then have "2 ^ 52 \<le> up n (x / 2)" by (intro Suc.IH) simp
    then show ?thesis using True by simp
  next
    case False
    then show ?thesis using Suc.prems round_even_ge_real [of "2 ^ 52" x] by simp
  qed
qed

lemma up_mono: "x \<le> y \<Longrightarrow> up n x \<le> up n y"
proof (induction n arbitrary: x y)
  case 0
  then show ?case by (simp add: round_even_mono)
next
  case (Suc n)
  consider "2 ^ 53 \<le> x" | "x < 2 ^ 53" "2 ^ 53 \<le> y" | "y < 2 ^ 53" using Suc.prems by linarith
  then show ?case
  proof cases
    case 1
    then have "up n (x / 2) \<le> up n (y / 2)" using Suc.prems by (intro Suc.IH) simp
    then show ?thesis using 1 Suc.prems by simp
  next
    case 2
    have "of_int (round_even x) \<le> (2::real) ^ 53"
      using 2(1) round_even_le_real [of x "2 ^ 53"] by simp
    moreover have "2 ^ 52 \<le> up n (y / 2)" using 2(2) by (intro up_ge) simp
    ultimately show ?thesis using 2 by simp
  next
    case 3
    then show ?thesis using Suc.prems by (simp add: round_even_mono)
  qed
qed

lemma up_idem: "up n (up n x) = up n x"
proof (induction n arbitrary: x)
  case 0
  then show ?case by simp
next
  case (Suc n)
  show ?case
  proof (cases "2 ^ 53 \<le> x")
    case True
    have "2 ^ 52 \<le> up n (x / 2)" using True by (intro up_ge) simp
    then show ?thesis using True Suc.IH [of "x / 2"] by simp
  next
    case False
    let ?k = "round_even x"
    have k: "?k \<le> 2 ^ 53" using False round_even_le [of x "2 ^ 53"] by simp
    show ?thesis
    proof (cases "?k = 2 ^ 53")
      case True
      have "up n (2 ^ 52) = 2 ^ 52"
        by (cases n) simp_all
      then show ?thesis using False True by simp
    next
      case ne: False
      then have "(of_int ?k :: real) < 2 ^ 53" using k
        by (metis less_le of_int_less_iff p53)
      then show ?thesis using False by simp
    qed
  qed
qed


lemma dn_le: "x \<le> 2 ^ 53 \<Longrightarrow> dn n x \<le> 2 ^ 53"
proof (induction n arbitrary: x)
  case 0
  then show ?case using round_even_le_real [of x "2 ^ 53"] by simp
next
  case (Suc n)
  show ?case
  proof (cases "x < 2 ^ 52")
    case True
    then have "dn n (2 * x) \<le> 2 ^ 53" by (intro Suc.IH) simp
    then show ?thesis using True by simp
  next
    case False
    then show ?thesis using Suc.prems round_even_le_real [of x "2 ^ 53"] by simp
  qed
qed

lemma dn_ge0: "0 \<le> x \<Longrightarrow> 0 \<le> dn n x"
proof (induction n arbitrary: x)
  case 0
  then show ?case using round_even_ge_real [of 0 x] by simp
next
  case (Suc n)
  show ?case
  proof (cases "x < 2 ^ 52")
    case True
    have "0 \<le> dn n (2 * x)" using Suc.prems by (intro Suc.IH) simp
    then show ?thesis using True by simp
  next
    case False
    then show ?thesis using Suc.prems round_even_ge_real [of 0 x] by simp
  qed
qed

lemma dn_mono: "x \<le> y \<Longrightarrow> dn n x \<le> dn n y"
proof (induction n arbitrary: x y)
  case 0
  then show ?case by (simp add: round_even_mono)
next
  case (Suc n)
  consider "y < 2 ^ 52" | "x < 2 ^ 52" "2 ^ 52 \<le> y" | "2 ^ 52 \<le> x" using Suc.prems by linarith
  then show ?case
  proof cases
    case 1
    then have "dn n (2 * x) \<le> dn n (2 * y)" using Suc.prems by (intro Suc.IH) simp
    then show ?thesis using 1 Suc.prems by simp
  next
    case 2
    have "dn n (2 * x) \<le> 2 ^ 53" using 2(1) by (intro dn_le) simp
    moreover have "2 ^ 52 \<le> (of_int (round_even y) :: real)"
      using 2(2) round_even_ge_real [of "2 ^ 52" y] by simp
    ultimately show ?thesis using 2 by simp
  next
    case 3
    then show ?thesis using Suc.prems by (simp add: round_even_mono)
  qed
qed

lemma dn_idem: "dn n (dn n x) = dn n x"
proof (induction n arbitrary: x)
  case 0
  then show ?case by simp
next
  case (Suc n)
  show ?case
  proof (cases "x < 2 ^ 52")
    case True
    let ?d = "dn n (2 * x)"
    have d: "?d \<le> 2 ^ 53" using True by (intro dn_le) simp
    show ?thesis
    proof (cases "?d = 2 ^ 53")
      case eq: True
      then show ?thesis using True by simp
    next
      case False
      then have "?d / 2 < 2 ^ 52" using d by simp
      then show ?thesis using True Suc.IH [of "2 * x"] by simp
    qed
  next
    case False
    then have "2 ^ 52 \<le> (of_int (round_even x) :: real)"
      using round_even_ge_real [of "2 ^ 52" x] by simp
    then show ?thesis using False by simp
  qed
qed

lemma round_pos_mono: "x \<le> y \<Longrightarrow> round_pos x \<le> round_pos y"
proof -
  assume xy: "x \<le> y"
  consider "y < 2 ^ 52" | "x < 2 ^ 52" "2 ^ 52 \<le> y" | "2 ^ 52 \<le> x" using xy by linarith
  then show ?thesis
  proof cases
    case 1
    then show ?thesis using xy by (simp add: round_pos_def dn_mono)
  next
    case 2
    have "dn 1074 x \<le> 2 ^ 52"
    proof -
      have "dn 1073 (2 * x) \<le> 2 ^ 53" using 2(1) by (intro dn_le) simp
      moreover have "dn 1074 x = dn 1073 (2 * x) / 2"
        using 2(1) dn.simps(2) [of 1073 x] by simp
      ultimately show ?thesis by simp
    qed
    moreover have "2 ^ 52 \<le> up 971 y" using 2(2) by (rule up_ge)
    ultimately show ?thesis using 2 by (simp add: round_pos_def)
  next
    case 3
    then show ?thesis using xy by (simp add: round_pos_def up_mono)
  qed
qed


lemma dn_0 [simp]: "dn n 0 = 0"
  by (induction n) simp_all

lemma dn_1074_le:
  assumes "x < 2 ^ 52"
  shows "dn 1074 x \<le> 2 ^ 52"
proof -
  have "dn 1073 (2 * x) \<le> 2 ^ 53" using assms by (intro dn_le) simp
  moreover have "dn 1074 x = dn 1073 (2 * x) / 2"
    using assms dn.simps(2) [of 1073 x] by simp
  ultimately show ?thesis by simp
qed

lemma up_971_fix: "up 971 (2 ^ 52) = 2 ^ 52"
  using up.simps(2) [of 970 "2 ^ 52"] by simp

lemma round_pos_ge0: "0 \<le> x \<Longrightarrow> 0 \<le> round_pos x"
  using up_ge [of x 971] by (auto simp: round_pos_def dn_ge0)

lemma round_pos_idem: "round_pos (round_pos x) = round_pos x"
proof (cases "x < 2 ^ 52")
  case True
  then have le: "dn 1074 x \<le> 2 ^ 52" by (rule dn_1074_le)
  show ?thesis
  proof (cases "dn 1074 x = 2 ^ 52")
    case eq: True
    then show ?thesis using True up_971_fix by (simp add: round_pos_def)
  next
    case False
    then have "dn 1074 x < 2 ^ 52" using le by simp
    then show ?thesis using True by (simp add: round_pos_def dn_idem)
  qed
next
  case False
  then have "2 ^ 52 \<le> up 971 x" by (intro up_ge) simp
  then show ?thesis using False by (simp add: round_pos_def up_idem)
qed

lemma round_pos_0 [simp]: "round_pos 0 = 0"
  by (simp add: round_pos_def)

lemma binary64_0 [simp]: "binary64 0 = 0"
  by (simp add: binary64_def)

lemma binary64_mono: "x \<le> y \<Longrightarrow> binary64 x \<le> binary64 y"
proof -
  assume xy: "x \<le> y"
  consider "y < 0" | "x < 0" "0 \<le> y" | "0 \<le> x" using xy by linarith
  then show ?thesis
  proof cases
    case 1
    then have "round_pos (- y) \<le> round_pos (- x)" using xy by (intro round_pos_mono) simp
    then show ?thesis using 1 xy by (simp add: binary64_def)
  next
    case 2
    have "0 \<le> round_pos (- x)" using 2(1) by (intro round_pos_ge0) simp
    moreover have "0 \<le> round_pos y" using 2(2) by (rule round_pos_ge0)
    ultimately show ?thesis using 2 by (simp add: binary64_def)
  next
    case 3
    then show ?thesis using xy by (simp add: binary64_def round_pos_mono)
  qed
qed

lemma binary64_idem: "binary64 (binary64 x) = binary64 x"
proof (cases "x < 0")
  case True
  have ge: "0 \<le> round_pos (- x)" using True by (intro round_pos_ge0) simp
  show ?thesis
  proof (cases "round_pos (- x) = 0")
    case eq: True
    then show ?thesis using True by (simp add: binary64_def)
  next
    case False
    then have "0 < round_pos (- x)" using ge by simp
    then show ?thesis using True by (simp add: binary64_def round_pos_idem)
  qed
next
  case False
  then have "0 \<le> round_pos x" by (intro round_pos_ge0) simp
  then show ?thesis using False by (simp add: binary64_def round_pos_idem)
qed

lemma dn_numeral:
  "dn (numeral k) x = (if x < 2 ^ 52 then dn (pred_numeral k) (2 * x) / 2 else of_int (round_even x))"
  by (simp add: numeral_eq_Suc)

lemma up_numeral:
  "up (numeral k) x = (if 2 ^ 53 \<le> x then 2 * up (pred_numeral k) (x / 2) else of_int (round_even x))"
  by (simp add: numeral_eq_Suc)

lemmas binary64_eval = binary64_def round_pos_def dn_numeral up_numeral round_even_def Let_def

lemma binary64_1 [simp]: "binary64 1 = 1"
  by (simp add: binary64_eval)

subsection \<open>The bound of the moving average\<close>

lemmas eval64_defs =
  eval_module64_def seconds_since_called64_def finish64_def blend64_def fadd_def fsub_def fmul_def
  env_weight3_def env_boast_def vali_tiny_def


lemma fmul_zero: "fmul 0 a = 0"
  by (simp add: fmul_def)

lemma fadd_zero: "fadd 0 (fmul x y) = fmul x y"
  by (simp add: fadd_def fmul_def binary64_idem)

lemma binary64_unit:
  assumes "0 \<le> x" and "x \<le> 1"
  shows "0 \<le> binary64 x \<and> binary64 x \<le> 1"
  using binary64_mono [OF assms(1)] binary64_mono [OF assms(2)] by simp

lemma fmul_shrinks:
  assumes a: "0 < a" "a < 1" and i: "binary64 i = i"
  shows "min i 0 \<le> fmul i (fsub 1 a) \<and> fmul i (fsub 1 a) \<le> max i 0"
proof -
  let ?c = "binary64 (1 - binary64 a)"
  have "0 \<le> binary64 a \<and> binary64 a \<le> 1" using a by (intro binary64_unit) simp_all
  then have c: "0 \<le> ?c \<and> ?c \<le> 1" by (intro binary64_unit) simp_all
  have eq: "fmul i (fsub 1 a) = binary64 (i * ?c)"
    by (simp add: fmul_def fsub_def binary64_idem i)
  show ?thesis
  proof (cases "0 \<le> i")
    case True
    then have "0 \<le> i * ?c" "i * ?c \<le> i"
      using c by (simp_all add: mult_left_le)
    then have "binary64 0 \<le> binary64 (i * ?c)" "binary64 (i * ?c) \<le> binary64 i"
      by (simp_all only: binary64_mono)
    then show ?thesis using True by (simp add: eq i)
  next
    case False
    then have "i * ?c \<le> 0" "i \<le> i * ?c"
      using c by (simp_all add: mult_le_0_iff mult_left_le_one_le mult_le_cancel_left2)
    then have "binary64 (i * ?c) \<le> binary64 0" "binary64 i \<le> binary64 (i * ?c)"
      by (simp_all only: binary64_mono)
    then show ?thesis using False by (simp add: eq i)
  qed
qed

lemma fmul_float: "binary64 (fmul x y) = fmul x y"
  by (simp add: fmul_def binary64_idem)

lemma blend64_failed:
  assumes "info ''w'' = Some x" and "num_of x = Inr i"
  shows "blend64 a failed_response info = Inr (fmul i (fsub 1 a))"
  using assms by (simp add: blend64_def failed_response_def getitem_def fmul_zero fadd_zero)

lemma blend64_failed_Inr:
  assumes "blend64 a failed_response info = Inr w"
  shows "\<exists>x i. info ''w'' = Some x \<and> num_of x = Inr i \<and> w = fmul i (fsub 1 a)"
  using assms
  by (auto simp: blend64_def failed_response_def getitem_def fmul_zero fadd_zero
           split: option.splits sum.splits)


lemma finish64_Inr:
  assumes "finish64 env v info resp = (v', Inr r)"
  shows "\<exists>ts t w nm. info ''timestamp'' = Some ts \<and> num_of ts = Inr t \<and> info ''name'' = Some nm \<and>
           blend64 (alpha (cfg v)) resp (info(''latency'' \<mapsto> VNum (fsub (now_latency env) t))) = Inr w \<and>
           v' = v\<lparr>storage := (storage v)(nm \<mapsto>
                   info(''latency'' \<mapsto> VNum (fsub (now_latency env) t), ''w'' \<mapsto> VNum w))\<rparr> \<and>
           r ''w'' = Some (VNum w)"
  using assms
  by (auto simp: finish64_def Let_def getitem_def split: sum.splits option.splits)

lemma finish64_Inl: "finish64 env v info resp = (v', Inl e) \<Longrightarrow> v' = v"
  by (auto simp: finish64_def Let_def split: sum.splits)

lemma eval_module64_cases:
  obtains (raised) e tr where
      "eval_module64 env v m = (v, tr, Inl e) \<or>
       eval_module64 env v m = (v\<lparr>requests := requests v + 1\<rparr>, tr, Inl e)"
  | (hit) s where
      "connect_out env = None"
      "seconds_since_called64 env (get_module_info v m) = Inr s"
      "s < max_age (cfg v)"
      "eval_module64 env v m =
         (v\<lparr>requests := requests v + 1\<rparr>, [Connect (snd (resolve v m))],
          Inr (cached_result env (get_module_info v m)))"
  | (miss) s mi info resp v' r where
      "connect_out env = None"
      "seconds_since_called64 env (get_module_info v m) = Inr s"
      "\<not> s < max_age (cfg v)"
      "info_out env = Inr mi"
      "score_step (score_out env)
         ((get_module_info v m ++ mi)(''timestamp'' \<mapsto> VNum (now_stamp env))) = (info, resp)"
      "finish64 env (v\<lparr>requests := requests v + 1\<rparr>) info resp = (v', Inr r)"
      "eval_module64 env v m = (v', [Connect (snd (resolve v m)), Info, Score], Inr r)"
proof (cases "connect_out env")
  case (Some e)
  then have "eval_module64 env v m = (v, [Connect (snd (resolve v m))], Inl e)"
    by (simp add: eval_module64_def Let_def get_or_def get_module_info_address)
  then show ?thesis using raised by blast
next
  case None
  let ?v = "v\<lparr>requests := requests v + 1\<rparr>"
  show ?thesis
  proof (cases "seconds_since_called64 env (get_module_info v m)")
    case (Inl e)
    then have "eval_module64 env v m = (?v, [Connect (snd (resolve v m))], Inl e)"
      using None by (simp add: eval_module64_def Let_def get_or_def get_module_info_address)
    then show ?thesis using raised by blast
  next
    case (Inr s)
    show ?thesis
    proof (cases "s < max_age (cfg v)")
      case True
      then have "eval_module64 env v m =
         (?v, [Connect (snd (resolve v m))], Inr (cached_result env (get_module_info v m)))"
        using None Inr by (simp add: eval_module64_def Let_def get_or_def get_module_info_address)
      then show ?thesis using hit [OF None Inr True] by blast
    next
      case False
      show ?thesis
      proof (cases "info_out env")
        case (Inl e)
        then have "eval_module64 env v m = (?v, [Connect (snd (resolve v m)), Info], Inl e)"
          using None Inr False
          by (simp add: eval_module64_def Let_def get_or_def get_module_info_address)
        then show ?thesis using raised by blast
      next
        case mi: (Inr mi)
        obtain info resp where ss: "score_step (score_out env)
           ((get_module_info v m ++ mi)(''timestamp'' \<mapsto> VNum (now_stamp env))) = (info, resp)"
          by (cases "score_step (score_out env)
           ((get_module_info v m ++ mi)(''timestamp'' \<mapsto> VNum (now_stamp env)))")
        obtain v2 res where fin: "finish64 env ?v info resp = (v2, res)"
          by (cases "finish64 env ?v info resp")
        have ev: "eval_module64 env v m = (v2, [Connect (snd (resolve v m)), Info, Score], res)"
          using None Inr False mi ss fin
          by (simp add: eval_module64_def Let_def get_or_def get_module_info_address
                get_module_info_name)
        show ?thesis
        proof (cases res)
          case (Inl e)
          with fin have "v2 = ?v" by (simp add: finish64_Inl)
          with ev Inl show ?thesis using raised by blast
        next
          case r: (Inr r)
          with fin ev show ?thesis using miss [OF None Inr False mi ss] by simp
        qed
      qed
    qed
  qed
qed

lemma eval_module64_failed_bound:
  assumes a: "0 < alpha (cfg v)" "alpha (cfg v) < 1"
    and ev: "eval_module64 env v m = (v', tr, Inr r)"
    and sc: "Score \<in> set tr"
    and sr: "scoring_raises (score_out env)"
    and md: "metadata_without_score env"
    and old: "num_of (get_or (get_module_info v m) ''w'' (VNum 0)) = Inr w_old"
    and fl: "binary64 w_old = w_old"
  shows "\<exists>w. r ''w'' = Some (VNum w) \<and> min w_old 0 \<le> w \<and> w \<le> max w_old 0"
proof (cases rule: eval_module64_cases [of env v m])
  case (raised e tr')
  then show ?thesis using ev by auto
next
  case (hit s)
  then show ?thesis using ev sc by auto
next
  case (miss s mi info resp v2 r2)
  let ?info0 = "(get_module_info v m ++ mi)(''timestamp'' \<mapsto> VNum (now_stamp env))"
  have ir: "info = ?info0" "resp = failed_response"
    using miss(5) sr by (simp_all add: score_step_raises)
  have r2: "r2 = r" using miss(7) ev by simp
  from finish64_Inr [OF miss(6)] obtain t w where
    bl: "blend64 (alpha (cfg v)) resp (info(''latency'' \<mapsto> VNum (fsub (now_latency env) t))) = Inr w"
    and rw: "r ''w'' = Some (VNum w)"
    by (auto simp: r2)
  have "blend64 (alpha (cfg v)) failed_response
          (info(''latency'' \<mapsto> VNum (fsub (now_latency env) t))) = Inr w"
    using bl ir(2) by simp
  from blend64_failed_Inr [OF this] obtain x i where
    xi: "(info(''latency'' \<mapsto> VNum (fsub (now_latency env) t))) ''w'' = Some x"
    "num_of x = Inr i" and w: "w = fmul i (fsub 1 (alpha (cfg v)))"
    by blast
  have x: "?info0 ''w'' = Some x" "num_of x = Inr i"
    using xi by (simp_all add: ir(1))
  have "mi ''w'' = None" using md miss(4) by (simp add: metadata_without_score_def)
  then have "get_module_info v m ''w'' = Some x" using x(1) by (simp add: map_add_def)
  then have "i = w_old" using old x(2) by (simp add: get_or_def)
  then show ?thesis using rw w fmul_shrinks [OF a fl] by auto
qed

lemma same_store:
  assumes "v' = v \<or> v' = v\<lparr>requests := requests v + 1\<rparr>"
  shows "stored_score v' n = stored_score v n \<and> cfg v' = cfg v \<and> resolve v' m = resolve v m"
proof -
  have "namespace v' = namespace v" "address2name v' = address2name v"
    "storage v' = storage v" "cfg v' = cfg v"
    using assms by auto
  then show ?thesis
    using resolve_cong [of v' v m] by (simp add: stored_score_def load_module_info_def)
qed

lemma eval_module64_failing_step:
  assumes a: "0 < alpha (cfg v)" "alpha (cfg v) < 1"
    and f: "step_fails env" and md: "metadata_without_score env"
    and st: "stored_score v (fst (resolve v m)) = Some (VNum s)"
    and s: "0 \<le> s" "binary64 s = s"
  shows "\<exists>s'. stored_score (fst (eval_module64 env v m)) (fst (resolve v m)) = Some (VNum s') \<and>
              0 \<le> s' \<and> s' \<le> s \<and> binary64 s' = s' \<and>
              cfg (fst (eval_module64 env v m)) = cfg v \<and>
              resolve (fst (eval_module64 env v m)) m = resolve v m"
proof (cases rule: eval_module64_cases [of env v m])
  case (raised e tr')
  then have "fst (eval_module64 env v m) = v \<or>
             fst (eval_module64 env v m) = v\<lparr>requests := requests v + 1\<rparr>"
    by auto
  from same_store [OF this] show ?thesis using st s by auto
next
  case (hit s0)
  then have "fst (eval_module64 env v m) = v \<or>
             fst (eval_module64 env v m) = v\<lparr>requests := requests v + 1\<rparr>"
    by simp
  from same_store [OF this] show ?thesis using st s by auto
next
  case (miss s0 mi info resp v2 r)
  let ?name = "fst (resolve v m)"
  let ?v = "v\<lparr>requests := requests v + 1\<rparr>"
  let ?info0 = "(get_module_info v m ++ mi)(''timestamp'' \<mapsto> VNum (now_stamp env))"
  have sr: "scoring_raises (score_out env)"
    using f miss(1,4) by (simp add: step_fails_def)
  have ir: "info = ?info0" "resp = failed_response"
    using miss(5) sr by (simp_all add: score_step_raises)
  from finish64_Inr [OF miss(6)] obtain t w nm where
    bl: "blend64 (alpha (cfg v)) resp (info(''latency'' \<mapsto> VNum (fsub (now_latency env) t))) = Inr w"
    and v2: "v2 = ?v\<lparr>storage := (storage ?v)(nm \<mapsto>
               info(''latency'' \<mapsto> VNum (fsub (now_latency env) t), ''w'' \<mapsto> VNum w))\<rparr>"
    by auto
  have "blend64 (alpha (cfg v)) failed_response
          (info(''latency'' \<mapsto> VNum (fsub (now_latency env) t))) = Inr w"
    using bl ir(2) by simp
  from blend64_failed_Inr [OF this] obtain x i where
    xi: "(info(''latency'' \<mapsto> VNum (fsub (now_latency env) t))) ''w'' = Some x"
    "num_of x = Inr i" and w: "w = fmul i (fsub 1 (alpha (cfg v)))"
    by blast
  have x: "?info0 ''w'' = Some x" "num_of x = Inr i"
    using xi by (simp_all add: ir(1))
  have "mi ''w'' = None" using md miss(4) by (simp add: metadata_without_score_def)
  then have "get_module_info v m ''w'' = Some x" using x(1) by (simp add: map_add_def)
  then have "i = s" using st x(2) by (simp add: get_module_info_w stored_score_def)
  then have ws: "0 \<le> w \<and> w \<le> s" "binary64 w = w"
    using w fmul_shrinks [OF a s(2)] s(1) by (simp_all add: fmul_float)
  have fv: "fst (eval_module64 env v m) = v2" using miss(7) by simp
  have res: "resolve v2 m = resolve v m" using v2 by (intro resolve_cong) simp_all
  have cfg: "cfg v2 = cfg v" using v2 by simp
  show ?thesis
  proof (cases "nm = VStr ?name")
    case True
    then have "stored_score v2 ?name = Some (VNum w)"
      by (simp add: v2 stored_score_def load_module_info_def)
    then show ?thesis using ws res cfg by (auto simp: fv)
  next
    case False
    then have "stored_score v2 ?name = stored_score v ?name"
      by (auto simp: v2 stored_score_def load_module_info_def)
    then show ?thesis using st s res cfg by (auto simp: fv)
  qed
qed

lemma score_trace64_failing:
  assumes "0 < alpha (cfg v)" "alpha (cfg v) < 1"
    and "\<forall>env \<in> set envs. step_fails env \<and> metadata_without_score env"
    and "stored_score v (fst (resolve v m)) = Some (VNum s)"
    and "0 \<le> s" "binary64 s = s"
  shows "\<exists>ss. score_trace64 envs v m = map (\<lambda>x. Some (VNum x)) ss \<and>
              sorted_wrt (\<lambda>x y. y \<le> x) ss \<and> (\<forall>x \<in> set ss. 0 \<le> x \<and> x \<le> s)"
  using assms
proof (induction envs arbitrary: v s)
  case Nil
  then show ?case by (intro exI [of _ "[s]"]) simp
next
  case (Cons env envs)
  let ?v' = "fst (eval_module64 env v m)"
  from Cons.prems have f: "step_fails env" "metadata_without_score env" by simp_all
  from eval_module64_failing_step [OF Cons.prems(1,2) f Cons.prems(4-6)] obtain s' where
    st': "stored_score ?v' (fst (resolve v m)) = Some (VNum s')"
    and s': "0 \<le> s'" "s' \<le> s" "binary64 s' = s'"
    and cfg: "cfg ?v' = cfg v" and res: "resolve ?v' m = resolve v m"
    by blast
  have "\<exists>ss. score_trace64 envs ?v' m = map (\<lambda>x. Some (VNum x)) ss \<and>
              sorted_wrt (\<lambda>x y. y \<le> x) ss \<and> (\<forall>x \<in> set ss. 0 \<le> x \<and> x \<le> s')"
    using Cons.prems st' s' by (intro Cons.IH) (simp_all add: cfg res)
  then obtain ss where ss: "score_trace64 envs ?v' m = map (\<lambda>x. Some (VNum x)) ss"
    "sorted_wrt (\<lambda>x y. y \<le> x) ss" "\<forall>x \<in> set ss. 0 \<le> x \<and> x \<le> s'"
    by blast
  show ?case
    using ss s' Cons.prems(4,5) by (intro exI [of _ "s # ss"]) auto
qed

text \<open>The scenario of the spec (score 0, weight 1, \<^verbatim>\<open>alpha = 0.2\<close>) in this arithmetic: the
  score stored and returned is 1 here too.\<close>

lemma eval_module64_scenario_score:
  "score_of (snd (snd (eval_module64 env_success vali_zero ''addr1''))) = Some (VNum 1) \<and>
   stored_score (fst (eval_module64 env_success vali_zero ''addr1'')) ''m1'' = Some (VNum 1)"
  by (simp add: scenario_defs eval_defs eval64_defs binary64_eval)

text \<open>
  C7, as stated, fails in three ways, each shown on the module with score 1 at
  \<^verbatim>\<open>alpha = 0.2\<close>. A scoring that returns weight 3 is blended, in binary64, to
  \<open>3.0000000000000004\<close>, above the maximum of 1 and 3 (the record already holds the fresh
  weight when line 299 reads it, and the two rounded products add up to more than 3). A
  module that reports a score of 5 in its metadata and whose scoring raises gets 4, above
  the maximum of 1 and 0: \<^verbatim>\<open>info.update(module_info)\<close> on line 286 replaces the old score.
  And with \<^verbatim>\<open>alpha = 2^-60\<close>, which lies between 0 and 1, \<^verbatim>\<open>1 - alpha\<close> rounds to 1 and a
  failing module keeps its score 1 evaluation after evaluation: the scores do not tend
  to 0.
\<close>

theorem blend_leaves_bound:
  "stored_score vali_known ''m1'' = Some (VNum 1) \<and>
   score_out env_weight3 = Inr (RVal (VNum 3)) \<and>
   score_of (snd (snd (eval_module64 env_weight3 vali_known ''addr1''))) =
     Some (VNum (6755399441055745 / 2251799813685248)) \<and>
   max 1 3 < (6755399441055745 / 2251799813685248 :: real) \<and>
   score_of (snd (snd (eval_module64 env_boast vali_known ''addr1''))) = Some (VNum 4) \<and>
   max 1 0 < (4 :: real) \<and>
   0 < alpha (cfg vali_tiny) \<and> alpha (cfg vali_tiny) < 1 \<and>
   score_trace64 [env_raise, env_later] vali_tiny ''addr1'' =
     [Some (VNum 1), Some (VNum 1), Some (VNum 1)]"
  by (simp add: scenario_defs eval_defs eval64_defs binary64_eval)

text \<open>
  C7, amended. With \<^verbatim>\<open>alpha\<close> strictly between 0 and 1, metadata that carries no score and
  an old score that is a binary64 number: an evaluation that reaches the scoring step,
  whose scoring raises and that returns, returns a score between the minimum and the
  maximum of the old score and 0, the weight of a failed evaluation. And for a module
  with stored score \<open>s0 \<ge> 0\<close> whose evaluations fail one after the other, each in
  \<^verbatim>\<open>c.connect\<close>, in \<^verbatim>\<open>module.info\<close> or in the scoring step, the stored scores never rise and
  never go below 0.
\<close>

theorem failed_blend_bound_and_dampening:
  assumes "0 < alpha (cfg v)" and "alpha (cfg v) < 1"
  shows "(eval_module64 env v m = (v', tr, Inr r) \<and> Score \<in> set tr \<and>
          scoring_raises (score_out env) \<and> metadata_without_score env \<and>
          num_of (get_or (get_module_info v m) ''w'' (VNum 0)) = Inr w_old \<and>
          binary64 w_old = w_old \<longrightarrow>
            (\<exists>w. r ''w'' = Some (VNum w) \<and> min w_old 0 \<le> w \<and> w \<le> max w_old 0)) \<and>
         (0 \<le> s0 \<and> binary64 s0 = s0 \<and>
          stored_score v (fst (resolve v m)) = Some (VNum s0) \<and>
          list_all (\<lambda>env. step_fails env \<and> metadata_without_score env) envs \<longrightarrow>
            (\<exists>ss. score_trace64 envs v m = map (\<lambda>x. Some (VNum x)) ss \<and>
                  sorted_wrt (\<lambda>x y. y \<le> x) ss \<and> (\<forall>x \<in> set ss. 0 \<le> x)))"
proof (intro conjI impI)
  assume "eval_module64 env v m = (v', tr, Inr r) \<and> Score \<in> set tr \<and>
          scoring_raises (score_out env) \<and> metadata_without_score env \<and>
          num_of (get_or (get_module_info v m) ''w'' (VNum 0)) = Inr w_old \<and>
          binary64 w_old = w_old"
  then show "\<exists>w. r ''w'' = Some (VNum w) \<and> min w_old 0 \<le> w \<and> w \<le> max w_old 0"
    using eval_module64_failed_bound [OF assms, of env m v' tr r w_old] by blast
next
  assume h: "0 \<le> s0 \<and> binary64 s0 = s0 \<and>
          stored_score v (fst (resolve v m)) = Some (VNum s0) \<and>
          list_all (\<lambda>env. step_fails env \<and> metadata_without_score env) envs"
  then have "\<forall>env \<in> set envs. step_fails env \<and> metadata_without_score env"
    by (simp add: list_all_iff)
  from score_trace64_failing [OF assms this, of m s0] h
  show "\<exists>ss. score_trace64 envs v m = map (\<lambda>x. Some (VNum x)) ss \<and>
             sorted_wrt (\<lambda>x y. y \<le> x) ss \<and> (\<forall>x \<in> set ss. 0 \<le> x)"
    by blast
qed

text \<open>The module with score 1 fails at time 1000 and at time 2000: the scores are 1, then
  0.8 and 0.6400000000000001 as binary64 has them.\<close>

theorem failed_blend_bound_and_dampening_witness:
  "(\<exists>w. projr (snd (snd (eval_module64 env_raise vali_known ''addr1''))) ''w'' = Some (VNum w) \<and>
        min 1 0 \<le> w \<and> w \<le> max 1 0) \<and>
   (\<exists>ss. score_trace64 [env_raise, env_later] vali_known ''addr1'' = map (\<lambda>x. Some (VNum x)) ss \<and>
         sorted_wrt (\<lambda>x y. y \<le> x) ss \<and> (\<forall>x \<in> set ss. 0 \<le> x)) \<and>
   score_trace64 [env_raise, env_later] vali_known ''addr1'' =
     [Some (VNum 1), Some (VNum (3602879701896397 / 4503599627370496)),
      Some (VNum (1441151880758559 / 2251799813685248))]"
proof -
  let ?res = "eval_module64 env_raise vali_known ''addr1''"
  have a: "0 < alpha (cfg vali_known)" "alpha (cfg vali_known) < 1"
    by (simp_all add: scenario_defs)
  have ev: "?res = (fst ?res, [Connect (VStr ''addr1''), Info, Score], Inr (projr (snd (snd ?res))))"
    by (simp add: scenario_defs eval_defs eval64_defs binary64_eval)
  have p1: "scoring_raises (score_out env_raise)" "metadata_without_score env_raise"
    "num_of (get_or (get_module_info vali_known ''addr1'') ''w'' (VNum 0)) = Inr 1"
    by (simp_all add: scenario_defs eval_defs metadata_without_score_def)
  have p2: "stored_score vali_known (fst (resolve vali_known ''addr1'')) = Some (VNum 1)"
    by (simp add: scenario_defs eval_defs)
  have p3: "list_all (\<lambda>env. step_fails env \<and> metadata_without_score env) [env_raise, env_later]"
    by (simp add: scenario_defs eval_defs step_fails_def metadata_without_score_def)
  note inst = failed_blend_bound_and_dampening [OF a, of env_raise "''addr1''" "fst ?res"
      "[Connect (VStr ''addr1''), Info, Score]" "projr (snd (snd ?res))" 1 1 "[env_raise, env_later]"]
  from inst ev p1 have
    "\<exists>w. projr (snd (snd ?res)) ''w'' = Some (VNum w) \<and> min 1 0 \<le> w \<and> w \<le> max 1 0"
    by simp
  moreover from inst p2 p3 have
    "\<exists>ss. score_trace64 [env_raise, env_later] vali_known ''addr1'' = map (\<lambda>x. Some (VNum x)) ss \<and>
          sorted_wrt (\<lambda>x y. y \<le> x) ss \<and> (\<forall>x \<in> set ss. 0 \<le> x)"
    by simp
  moreover have "score_trace64 [env_raise, env_later] vali_known ''addr1'' =
     [Some (VNum 1), Some (VNum (3602879701896397 / 4503599627370496)),
      Some (VNum (1441151880758559 / 2251799813685248))]"
    by (simp add: scenario_defs eval_defs eval64_defs binary64_eval)
  ultimately show ?thesis by blast
qed

section \<open>Properties of \<^verbatim>\<open>epoch\<close>\<close>

lemmas epoch_defs =
  epoch_def epoch_start_def epoch_step_def report_def record_result_def remove_at_def Let_def

lemma futures_report [simp]: "futures (report c now st) = futures st"
  by (simp add: report_def)

lemma futures_record_result [simp]: "futures (record_result ex now r st) = futures st"
  by (simp add: record_result_def Let_def)

lemma length_remove_at: "length (remove_at k xs) \<le> length xs"
  by (simp add: remove_at_def)

lemma epoch_step_bound:
  assumes "int (length (futures st)) \<le> batch_size c"
  shows "int (length (futures (epoch_step ex c t a st))) \<le> batch_size c"
proof (cases "int (length (futures st)) < batch_size c")
  case True
  then show ?thesis by (simp add: epoch_step_def)
next
  case False
  have "int (length (remove_at k (futures st))) \<le> batch_size c" for k
    using assms length_remove_at [of k "futures st"] by linarith
  then show ?thesis
    using False assms by (simp add: epoch_step_def Let_def split: drain.splits)
qed

lemma epoch_states_bound:
  assumes "int (length (futures st)) \<le> batch_size c"
  shows "\<forall>st' \<in> set (epoch_states ex c orc i as st). int (length (futures st')) \<le> batch_size c"
  using assms
proof (induction as arbitrary: i st)
  case Nil
  then show ?case by simp
next
  case (Cons a as)
  from Cons.IH [OF epoch_step_bound [OF Cons.prems]] Cons.prems show ?case by simp
qed

lemma last_epoch_states: "last (epoch_states ex c orc i as st) = epoch_loop ex c orc i as st"
  by (induction as arbitrary: i st) (simp_all, metis epoch_states.elims list.distinct(1))

subsection \<open>The futures in flight\<close>

text \<open>
  C8. With a batch size that is a count (not negative), the number of futures in flight is
  at most \<^verbatim>\<open>batch_size\<close> before every iteration of the loop of line 109 and after the
  last one: a future is appended only when there are fewer than \<^verbatim>\<open>batch_size\<close>, and the
  other branches remove one or leave the list alone. The final drain adds none.
\<close>

theorem epoch_in_flight_bound:
  assumes "0 \<le> batch_size c"
  shows "\<forall>st \<in> set (epoch_states ex c orc 0 module_addresses (epoch_start st0)).
           int (length (futures st)) \<le> batch_size c"
  using assms by (intro epoch_states_bound) (simp add: epoch_start_def)

text \<open>Three addresses with \<^verbatim>\<open>batch_size = 2\<close>: 0, 1, 2 and 1 futures in flight.\<close>

theorem epoch_in_flight_bound_witness:
  "map (\<lambda>st. length (futures st)) (epoch_states executor0 cfg0 oracle0 0 three_addresses (epoch_start scheduler0))
     = [0, 1, 2, 1] \<and>
   list_all (\<lambda>st. int (length (futures st)) \<le> 2)
     (epoch_states executor0 cfg0 oracle0 0 three_addresses (epoch_start scheduler0))"
proof -
  have "0 \<le> batch_size cfg0" "batch_size cfg0 = 2" by (simp_all add: cfg0_def)
  from epoch_in_flight_bound [OF this(1), of executor0 oracle0 three_addresses scheduler0] this(2)
  have "list_all (\<lambda>st. int (length (futures st)) \<le> 2)
     (epoch_states executor0 cfg0 oracle0 0 three_addresses (epoch_start scheduler0))"
    by (simp add: list_all_iff)
  moreover have "map (\<lambda>st. length (futures st))
      (epoch_states executor0 cfg0 oracle0 0 three_addresses (epoch_start scheduler0)) = [0, 1, 2, 1]"
    by (simp add: scenario_defs epoch_defs)
  ultimately show ?thesis by simp
qed

subsection \<open>The addresses submitted\<close>

text \<open>
  C4. The claim: every address of the namespace is submitted, exactly once; when the pool
  is at capacity the scheduler waits for a completion and then submits the pending module.
  The code at three addresses with \<^verbatim>\<open>batch_size = 2\<close>: the iteration for the third address
  finds the pool full, takes the \<^verbatim>\<open>else\<close> branch, drains one future, and the loop moves on
  without submitting the address. The epoch returns two results; \<^verbatim>\<open>addr3\<close> is never
  evaluated.
\<close>

theorem epoch_skips_module:
  "submitted (fst (epoch executor0 cfg0 oracle0 3 [Completed 0] three_addresses scheduler0))
     = [''addr1'', ''addr2''] \<and>
   map (\<lambda>r. r ''address'') (projr (snd (epoch executor0 cfg0 oracle0 3 [Completed 0] three_addresses scheduler0)))
     = [Some (VStr ''addr1''), Some (VStr ''addr2'')] \<and>
   successes (fst (epoch executor0 cfg0 oracle0 3 [Completed 0] three_addresses scheduler0)) = 2 \<and>
   errors (fst (epoch executor0 cfg0 oracle0 3 [Completed 0] three_addresses scheduler0)) = 0 \<and>
   \<not> isl (snd (epoch executor0 cfg0 oracle0 3 [Completed 0] three_addresses scheduler0))"
  by (simp add: scenario_defs epoch_defs)

section \<open>Properties of the vote pipeline\<close>

lemmas vote_defs =
  vote_fields_def vote_def vote_staleness_def votes_def module_infos_def project_def staleness_key_def
  vote_entry_def get_or_def getitem_def Let_def

subsection \<open>The rate limit\<close>

text \<open>
  C5, as stated, fails: the guard of line 371 compares \<^verbatim>\<open>vote_staleness\<close>, the distance in
  blocks between the chain's height and the validator's last update on the chain, and
  never reads \<^verbatim>\<open>last_vote_time\<close>. Here the validator voted one second ago (\<open>vote_interval\<close> is
  100) while the chain saw its last update 1000 blocks ago: the vote is submitted and
  \<^verbatim>\<open>last_vote_time\<close> advances.
\<close>

theorem vote_ignores_last_vote_time:
  "now_voted vote_env0 - last_vote_time vali_voted < vote_interval (cfg vali_voted) \<and>
   map vote_keys (fst (snd (vote vote_env0 False True vali_voted))) = [[''x'']] \<and>
   last_vote_time vali_voted = 2000 \<and>
   last_vote_time (fst (vote vote_env0 False True vali_voted)) = 2001"
  by (simp add: scenario_defs vote_defs)

text \<open>
  C5, amended. Every call of \<^verbatim>\<open>vote\<close> made when \<^verbatim>\<open>vote_staleness\<close> (block height minus the
  validator's last update on a subspace network, 0 on any other) is below \<^verbatim>\<open>vote_interval\<close>
  returns the result \<^verbatim>\<open>{'success': False, 'msg': 'Vote is too new', ...}\<close>, no exception,
  hands nothing to the chain and leaves the validator, \<^verbatim>\<open>last_vote_time\<close> included, as it
  was.
\<close>

theorem vote_too_new:
  assumes "real_of_int (vote_staleness env v) < vote_interval (cfg v)"
  shows "\<exists>d. vote env async_vote save v = (v, [], Inr (Returned d)) \<and>
             d ''success'' = Some (VBool False) \<and> d ''msg'' = Some (VStr ''Vote is too new'')"
  using assms by (simp add: vote_def)

text \<open>The chain saw the validator's last update 50 blocks ago.\<close>

theorem vote_too_new_witness:
  "\<exists>d. vote vote_env_recent False True vali_voted = (vali_voted, [], Inr (Returned d)) \<and>
       d ''success'' = Some (VBool False) \<and> d ''msg'' = Some (VStr ''Vote is too new'')"
  using vote_too_new [of vote_env_recent vali_voted False True]
  by (simp add: scenario_defs vote_staleness_def)

subsection \<open>The records voted for\<close>

text \<open>
  C6, as stated, fails twice at one store: \<^verbatim>\<open>module_infos\<close> drops every record older than
  1000 seconds, and \<^verbatim>\<open>votes\<close> tests that the key \<^verbatim>\<open>ss58_address\<close> is there, not that the
  identity is not empty. Record \<^verbatim>\<open>A\<close> (identity \<^verbatim>\<open>x\<close>, score 5, slot 1) was written 2000
  seconds ago and is left out; record \<^verbatim>\<open>B\<close> has the empty identity, which this ledger
  resolves to slot 0, and is voted for.
\<close>

theorem votes_stale_and_empty_identity:
  "votes vote_env_old = Inr \<lparr>vote_keys = [[]], weights = [9], uids = [0], timestamp = 2000\<rparr> \<and>
   module_files vote_env_old = [Some (record_A(''timestamp'' \<mapsto> VNum 0)), Some record_B] \<and>
   record_A ''ss58_address'' = Some (VStr ''x'') \<and> record_A ''w'' = Some (VNum 5) \<and>
   key2uid vote_env_old ''x'' = Some 1 \<and>
   record_B ''ss58_address'' = Some (VStr [])"
  by (simp add: scenario_defs vote_defs)

lemma project_vote_fields:
  "project vote_fields s ''ss58_address'' = Some (get_or s ''ss58_address'' VNone)"
  "project vote_fields s ''w'' = Some (get_or s ''w'' VNone)"
  "project vote_fields s ''staleness'' = None"
  by (simp_all add: project_def vote_fields_def)

lemma list_records_no_staleness:
  "list_records now age vote_fields files = Inr infos \<Longrightarrow> \<forall>x \<in> set infos. staleness_key x = 0"
proof (induction files arbitrary: infos)
  case Nil
  then show ?case by simp
next
  case (Cons f files)
  then show ?case
    by (cases f) (auto simp: staleness_key_def project_vote_fields split: if_splits sum.splits)
qed

lemma sort_key_constant:
  fixes f :: "'a \<Rightarrow> real"
  assumes "\<forall>x \<in> set xs. f x = c"
  shows "sort_key f xs = xs"
  using assms
proof (induction xs)
  case Nil
  then show ?case by simp
next
  case (Cons x xs)
  then have "sort_key f xs = xs" by simp
  then show ?case using Cons.prems by (cases xs) simp_all
qed

lemma module_infos_votes:
  "module_infos now age vote_fields files = list_records now age vote_fields files"
proof (cases "list_records now age vote_fields files")
  case (Inl e)
  then show ?thesis by (simp add: module_infos_def)
next
  case (Inr infos)
  from list_records_no_staleness [OF Inr] have "\<forall>x \<in> set infos. - staleness_key x = 0" by simp
  then have "sort_key (\<lambda>x. - staleness_key x) infos = infos" by (rule sort_key_constant)
  then show ?thesis using Inr by (simp add: module_infos_def)
qed

lemma add_votes_Nil: "add_votes [] vs = vs"
  by (simp add: add_votes_def)

lemma add_votes_Cons:
  "add_votes (e # el) vs =
     add_votes el (vs\<lparr>vote_keys := vote_keys vs @ [fst e],
                      weights := weights vs @ [fst (snd e)],
                      uids := uids vs @ [snd (snd e)]\<rparr>)"
  by (simp add: add_votes_def)

lemma vote_entry_listed:
  assumes "s ''ss58_address'' \<noteq> None"
    and "num_of (get_or s ''timestamp'' (VNum 0)) = Inr t"
    and "now_list env - t \<le> 1000"
    and "s ''w'' = Some x" and "num_of x = Inr w"
  shows "vote_entry (key2uid env) (project vote_fields (s(''staleness'' \<mapsto> VNum (now_list env - t))))
           = Inr (eligible env s)"
  using assms
  by (auto simp: vote_entry_def eligible_def project_def vote_fields_def get_or_def getitem_def
           split: option.splits pyval.splits)


lemma eligible_unlisted:
  "s ''ss58_address'' = None \<Longrightarrow> eligible env s = None"
  "num_of (get_or s ''timestamp'' (VNum 0)) = Inr t \<Longrightarrow> now_list env - t > 1000 \<Longrightarrow> eligible env s = None"
  by (auto simp: eligible_def split: option.splits pyval.splits sum.splits)

lemma collect_listed:
  assumes "numeric_files files"
  shows "\<exists>infos. list_records (now_list env) 1000 vote_fields files = Inr infos \<and>
           (\<forall>vs. collect_votes (key2uid env) infos vs =
                  Inr (add_votes (List.map_filter
                         (\<lambda>f. case f of None \<Rightarrow> None | Some s \<Rightarrow> eligible env s) files) vs))"
  using assms
proof (induction files)
  case Nil
  then show ?case by (simp add: add_votes_Nil)
next
  case (Cons f files)
  let ?el = "\<lambda>f. case f of None \<Rightarrow> None | Some s \<Rightarrow> eligible env s"
  from Cons.prems have nf: "numeric_files files"
    by (simp add: numeric_files_def)
  from Cons.IH [OF nf] obtain infos where
    lr: "list_records (now_list env) 1000 vote_fields files = Inr infos"
    and cv: "\<And>vs. collect_votes (key2uid env) infos vs = Inr (add_votes (List.map_filter ?el files) vs)"
    by blast
  show ?case
  proof (cases f)
    case None
    then show ?thesis using lr cv by simp
  next
    case (Some s)
    show ?thesis
    proof (cases "s ''ss58_address'' = None")
      case True
      then show ?thesis using Some lr cv by (simp add: eligible_unlisted)
    next
      case False
      with Cons.prems Some have nr: "\<not> isl (num_of (get_or s ''timestamp'' (VNum 0)))"
        "case s ''w'' of None \<Rightarrow> False | Some x \<Rightarrow> \<not> isl (num_of x)"
        by (simp_all add: numeric_files_def numeric_record_def)
      from nr(1) obtain t where t: "num_of (get_or s ''timestamp'' (VNum 0)) = Inr t"
        by (cases "num_of (get_or s ''timestamp'' (VNum 0))") simp_all
      from nr(2) obtain x where x: "s ''w'' = Some x" and nx: "\<not> isl (num_of x)"
        by (cases "s ''w''") simp_all
      from nx obtain w where w: "num_of x = Inr w"
        by (cases "num_of x") simp_all
      show ?thesis
      proof (cases "now_list env - t > 1000")
        case True
        then show ?thesis
          using Some False t lr cv by (simp add: eligible_unlisted)
      next
        case old: False
        let ?info = "project vote_fields (s(''staleness'' \<mapsto> VNum (now_list env - t)))"
        have le: "now_list env - t \<le> 1000" using old by simp
        have ve: "vote_entry (key2uid env) ?info = Inr (eligible env s)"
          by (rule vote_entry_listed [OF False t le x w])
        have lr': "list_records (now_list env) 1000 vote_fields (f # files) = Inr (?info # infos)"
          using Some False t old lr by simp
        have "collect_votes (key2uid env) (?info # infos) vs =
                Inr (add_votes (List.map_filter ?el (f # files)) vs)" for vs
          using Some ve cv
          by (cases "eligible env s") (auto simp: add_votes_Cons)
        with lr' show ?thesis by blast
      qed
    qed
  qed
qed

lemma eligible_resolves: "eligible env s = Some (key, w, uid) \<Longrightarrow> key2uid env key = Some uid"
  by (auto simp: eligible_def split: option.splits pyval.splits sum.splits if_splits)

lemma eligible_entries_resolve:
  assumes "(key, w, uid) \<in> set (eligible_entries env)"
  shows "key2uid env key = Some uid"
proof -
  from assms obtain s where "eligible env s = Some (key, w, uid)"
    by (auto simp: eligible_entries_def map_filter_def split: option.splits)
  then show ?thesis by (rule eligible_resolves)
qed

text \<open>
  C6, amended. When the timestamp and the score of every stored record with an identity
  are numbers, \<^verbatim>\<open>votes\<close> returns, without raising, the vote set of exactly the eligible
  records in the order of the listing: those that have an identity, are at most 1000
  seconds old, have a score that is not negative, and whose identity the ledger resolves to
  a slot. Every key voted for is a key of the ledger's map, so a record with the empty
  identity is not included when the ledger has no slot for the empty key; a record whose
  identity has no slot is left out.
\<close>

theorem votes_are_eligible_records:
  assumes "numeric_files (module_files env)"
  shows "votes env =
           Inr (add_votes (eligible_entries env)
                  \<lparr>vote_keys = [], weights = [], uids = [], timestamp = now_votes env\<rparr>) \<and>
         set (map fst (eligible_entries env)) \<subseteq> dom (key2uid env) \<and>
         (key2uid env [] = None \<longrightarrow> [] \<notin> set (map fst (eligible_entries env)))"
proof -
  from collect_listed [OF assms, of env] have
    "votes env = Inr (add_votes (eligible_entries env)
                  \<lparr>vote_keys = [], weights = [], uids = [], timestamp = now_votes env\<rparr>)"
    by (auto simp: votes_def module_infos_votes eligible_entries_def)
  moreover have "set (map fst (eligible_entries env)) \<subseteq> dom (key2uid env)"
    using eligible_entries_resolve [of _ _ _ env] by fastforce
  ultimately show ?thesis by auto
qed

text \<open>The spec's scenario: of \<^verbatim>\<open>A\<close> (identity \<^verbatim>\<open>x\<close>, score 5) and \<^verbatim>\<open>B\<close> (empty identity,
  score 9) only \<^verbatim>\<open>A\<close> is voted for.\<close>

theorem votes_are_eligible_records_witness:
  "votes vote_env0 = Inr \<lparr>vote_keys = [''x''], weights = [5], uids = [1], timestamp = 2000\<rparr> \<and>
   eligible_entries vote_env0 = [(''x'', 5, 1)] \<and>
   key2uid vote_env0 [] = None"
proof -
  have "numeric_files (module_files vote_env0)"
    by (simp add: scenario_defs numeric_files_def numeric_record_def get_or_def)
  from votes_are_eligible_records [OF this]
  show ?thesis
    by (simp add: scenario_defs eligible_entries_def eligible_def add_votes_def get_or_def)
qed

end
